theory Spec2Isabelle
  imports Main "HOL-Library.Word"
begin

unbundle bit_operations_syntax

section \<open>Data model\<close>

text \<open>
  The C++ sources use \<^verbatim>\<open>int64_t\<close> and \<^verbatim>\<open>size_t\<close> interchangeably: a value
  of one type is stored into a variable of the other without a check. Both are 64-bit words
  here, so such a conversion is the identity on the representation; signed comparisons read
  a word with \<open>sint\<close>, unsigned ones use the order of words. \<^verbatim>\<open>int\<close> is a 32-bit word.
\<close>

type_synonym int64_t = "64 word"
type_synonym size_t = "64 word"
type_synonym int_t = "32 word"

text \<open>
  Every \<^verbatim>\<open>throw std::runtime_error\<close> of the embedded functions is a constructor,
  named after the error kind or the message it carries. \<open>StringOutOfRange\<close> is the
  \<^verbatim>\<open>std::out_of_range\<close> of \<^verbatim>\<open>std::string::substr\<close>; \<open>VectorOutOfRange\<close> stands for a
  read past the end of a \<^verbatim>\<open>std::vector\<close>.
\<close>

datatype error =
    MissingAlphabet
  | InvalidBase
  | OutOfRange
  | SizeMismatch
  | ZeroLengthMismatchVector
  | ExtendEmptyPosition
  | StringOutOfRange
  | VectorOutOfRange
  | FastaOpenFailed
  | ExecFailed
  | IndexBuildFailed
  | CopyFailed

text \<open>
  Modelled from the spec: \<^verbatim>\<open>TextPosition.hpp\<close> is not among the sources. A TextPosition is
  the pair of a text number and an offset in that text; \<^verbatim>\<open>addOffset\<close> adds a signed
  difference to the offset; two TextPositions are equal when both components are.
\<close>

record TextPosition =
  text_id :: size_t
  offset :: size_t

definition addOffset :: "TextPosition \<Rightarrow> int64_t \<Rightarrow> TextPosition" where
  "addOffset p delta = p\<lparr>offset := offset p + delta\<rparr>"

text \<open>
  \<^verbatim>\<open>struct Mapping\<close> of \<^verbatim>\<open>Mapping.hpp\<close>. The member \<^verbatim>\<open>range\<close> is called \<open>range_no\<close>.
\<close>

record Mapping =
  location :: TextPosition
  range_no :: int64_t
  is_mapped :: bool
  leftMaxContext :: size_t
  rightMaxContext :: size_t

text \<open>
  Modelled from the spec: the constructors of \<^verbatim>\<open>Mapping\<close> are declared in
  \<^verbatim>\<open>Mapping.hpp\<close> and defined in \<^verbatim>\<open>Mapping.cpp\<close>, which is not among the sources.
  \<^verbatim>\<open>Mapping()\<close> makes an unmapped mapping, \<^verbatim>\<open>Mapping(location)\<close> a no-context mapping to
  the given position. The location of an unmapped mapping is text 0, offset 0, and the
  range is the no-range value \<open>-1\<close>.
\<close>

definition Mapping_unmapped :: Mapping where
  "Mapping_unmapped =
     \<lparr>location = \<lparr>text_id = 0, offset = 0\<rparr>, range_no = - 1, is_mapped = False,
      leftMaxContext = 0, rightMaxContext = 0\<rparr>"

definition Mapping_at :: "TextPosition \<Rightarrow> Mapping" where
  "Mapping_at p =
     \<lparr>location = p, range_no = - 1, is_mapped = True,
      leftMaxContext = 0, rightMaxContext = 0\<rparr>"


text \<open>
  Modelled from the spec: \<^verbatim>\<open>FMDPosition.hpp\<close> is not among the sources. An FMDPosition
  is the triple of a forward start, a reverse start and an end offset; both intervals have
  \<open>end_offset + 1\<close> rows, and a zero-length range has end offset \<open>-1\<close>. \<^verbatim>\<open>flip\<close> swaps the
  two starts.
\<close>

record FMDPosition =
  forward_start :: int64_t
  reverse_start :: int64_t
  end_offset :: int64_t

definition EMPTY_FMD_POSITION :: FMDPosition where
  "EMPTY_FMD_POSITION = \<lparr>forward_start = 0, reverse_start = 0, end_offset = - 1\<rparr>"

definition flip :: "FMDPosition \<Rightarrow> FMDPosition" where
  "flip p = p\<lparr>forward_start := reverse_start p, reverse_start := forward_start p\<rparr>"

text \<open>
  Modelled from the spec: \<^verbatim>\<open>GenericBitVector\<close> is not among the sources. A genome mask
  has one bit per BWT row; \<^verbatim>\<open>valueAfter(i).first\<close> is the first set position at or after
  \<open>i\<close> (the size of the vector when there is none). A mask parameter is a pointer that may
  be null: an \<open>option\<close>.
\<close>

type_synonym GenericBitVector = "bool list"

fun firstSetFrom :: "bool list \<Rightarrow> nat \<Rightarrow> nat" where
  "firstSetFrom [] i = i"
| "firstSetFrom (b # bs) i = (if b then i else firstSetFrom bs (Suc i))"

definition valueAfter :: "GenericBitVector \<Rightarrow> int64_t \<Rightarrow> int64_t" where
  "valueAfter bv i = of_nat (firstSetFrom (drop (unat i) bv) (unat i))"

text \<open>
  Modelled from the spec: the length of a position under a mask is the number of rows of
  its forward interval that pass the mask; with no mask it is \<open>end_offset + 1\<close>. A position
  is empty when that length is not positive.
\<close>

definition getLength :: "GenericBitVector option \<Rightarrow> FMDPosition \<Rightarrow> int64_t" where
  "getLength msk p =
     (case msk of
        None \<Rightarrow> end_offset p + 1
      | Some bv \<Rightarrow>
          of_nat (length (filter (\<lambda>b. b)
            (take (nat (sint (end_offset p + 1))) (drop (unat (forward_start p)) bv)))))"

definition isEmpty :: "GenericBitVector option \<Rightarrow> FMDPosition \<Rightarrow> bool" where
  "isEmpty msk p = (sint (getLength msk p) \<le> 0)"

text \<open>
  The members of \<^verbatim>\<open>FMDIndex\<close> that the embedded functions read. The BWT with its rank
  structure, the sampled suffix array, the LCP array's accessors and the contig table are
  external collaborators of the sources; each is a field holding the accessor as a function.
\<close>

record FMDIndex =
  getBWLen :: int64_t
  getPC :: "char \<Rightarrow> int64_t"
  getOcc :: "char \<Rightarrow> int64_t \<Rightarrow> int64_t"
  lcpArray :: "size_t \<Rightarrow> size_t"
  getPSV :: "size_t \<Rightarrow> size_t"
  getNSV :: "size_t \<Rightarrow> size_t"
  calcSA :: "int64_t \<Rightarrow> TextPosition"
  lengths :: "size_t \<Rightarrow> size_t"
  genomeMasks :: "int64_t \<Rightarrow> GenericBitVector"

text \<open>
  \<^verbatim>\<open>MisMatchAttemptResults\<close>: the fields \<^verbatim>\<open>misMatchExtend\<close> reads and writes (its
  \<^verbatim>\<open>is_mapped\<close> is called \<open>mm_is_mapped\<close>).
\<close>

record MisMatchAttemptResults =
  positions :: "(FMDPosition \<times> size_t) list"
  mm_is_mapped :: bool
  characters :: size_t

text \<open>
  What \<^verbatim>\<open>CreditFilter2::apply\<close> calls and the sources do not hold: the disambiguation
  filter (\<^verbatim>\<open>DisambiguateFilter::apply\<close>), whether a word is found uniquely within the
  mismatch bound (\<^verbatim>\<open>index.misMatchCount(ranges, word, z_max).is_mapped\<close>), and the two
  minimum-context accessors of a Mapping. They are parameters of the model.
\<close>

record CreditFilterDeps =
  disambiguateFilter :: "Mapping list \<Rightarrow> Mapping list \<Rightarrow> error + Mapping list"
  misMatchCountMapped :: "string \<Rightarrow> bool"
  getLeftMinContext :: "Mapping \<Rightarrow> size_t"
  getRightMinContext :: "Mapping \<Rightarrow> size_t"

text \<open>
  What \<^verbatim>\<open>FMDIndexBuilder::add\<close> gets from outside the program: the name
  \<^verbatim>\<open>make_tempdir\<close> returns, whether the FASTA file opens, what \<^verbatim>\<open>fork\<close> returns and, in
  the parent, the status \<^verbatim>\<open>waitpid\<close> reports together with the files the child has left.
\<close>

datatype fork_result = Child bool | Parent int_t

record BuilderEnv =
  tempDirName :: string
  fastaOpens :: bool
  forkResult :: fork_result
  builderFiles :: "string list"

section \<open>The index: accessors, extension and retraction\<close>

definition getContigNumber :: "TextPosition \<Rightarrow> size_t" where
  "getContigNumber base = text_id base div 2"

definition getContigLength :: "FMDIndex \<Rightarrow> size_t \<Rightarrow> size_t" where
  "getContigLength idx index = lengths idx index"

definition getBWTLength :: "FMDIndex \<Rightarrow> int64_t" where
  "getBWTLength idx = getBWLen idx"

definition getCoveringPosition :: "FMDIndex \<Rightarrow> FMDPosition" where
  "getCoveringPosition idx =
     \<lparr>forward_start = 0, reverse_start = 0, end_offset = getBWTLength idx - 1\<rparr>"

definition getLCP :: "FMDIndex \<Rightarrow> size_t \<Rightarrow> error + size_t" where
  "getLCP idx index =
     (if index \<ge> getBWTLength idx then Inl OutOfRange else Inr (lcpArray idx index))"

definition getLCPPSV :: "FMDIndex \<Rightarrow> size_t \<Rightarrow> error + size_t" where
  "getLCPPSV idx index =
     (if index \<ge> getBWTLength idx then Inl OutOfRange else Inr (getPSV idx index))"

definition getLCPNSV :: "FMDIndex \<Rightarrow> size_t \<Rightarrow> error + size_t" where
  "getLCPNSV idx index =
     (if index \<ge> getBWTLength idx then Inl OutOfRange else Inr (getNSV idx index))"

definition locate :: "FMDIndex \<Rightarrow> int64_t \<Rightarrow> TextPosition" where
  "locate idx index = calcSA idx index"

definition extendLeftOnly :: "FMDIndex \<Rightarrow> FMDPosition \<Rightarrow> char \<Rightarrow> FMDPosition" where
  "extendLeftOnly idx rng c =
     (let start = getPC idx c;
          forwardStartRank = getOcc idx c (forward_start rng - 1);
          forwardEndRank = getOcc idx c (forward_start rng + end_offset rng) - 1
      in rng\<lparr>forward_start := start + forwardStartRank,
               end_offset := forwardEndRank - forwardStartRank\<rparr>)"

text \<open>
  The one-argument \<^verbatim>\<open>retractRightOnly\<close>: the position is updated in place and the new
  pattern length returned, so the model returns the pair.
\<close>

definition retractRightOnly :: "FMDIndex \<Rightarrow> FMDPosition \<Rightarrow> error + (FMDPosition \<times> size_t)" where
  "retractRightOnly idx rng =
     (let rangeStart = forward_start rng;
          rangeEnd = forward_start rng + end_offset rng + 1
      in case getLCP idx rangeStart of
           Inl e \<Rightarrow> Inl e
         | Inr startLCP \<Rightarrow>
            (case (if rangeEnd < getBWTLength idx then getLCP idx rangeEnd else Inr 0) of
               Inl e \<Rightarrow> Inl e
             | Inr endLCP \<Rightarrow>
                (let useStart = (startLCP \<ge> endLCP);
                     lcp = (if useStart then startLCP else endLCP);
                     lcpIndex = (if useStart then rangeStart else rangeEnd)
                 in case getLCPPSV idx lcpIndex of
                      Inl e \<Rightarrow> Inl e
                    | Inr rangeStart' \<Rightarrow>
                       (case getLCPNSV idx lcpIndex of
                          Inl e \<Rightarrow> Inl e
                        | Inr rangeEnd' \<Rightarrow>
                            Inr (rng\<lparr>forward_start := rangeStart',
                                       end_offset := rangeEnd' - rangeStart' - 1\<rparr>, lcp)))))"

text \<open>
  Modelled from the spec: \<^verbatim>\<open>util.hpp\<close> is not among the sources. The alphabet is
  \<open>{A, C, G, T}\<close>; \<^verbatim>\<open>BASES\<close> lists it in alphabetical order by reverse complement, the
  order in which \<^verbatim>\<open>extend\<close> hands out the reverse intervals. Any other character is
  invalid: its complement is the error \<open>InvalidBase\<close>.
\<close>

definition BASES :: string where
  "BASES = ''TGCA''"

definition isBase :: "char \<Rightarrow> bool" where
  "isBase c = (c \<in> set BASES)"

definition complement :: "char \<Rightarrow> error + char" where
  "complement c =
     (if c = CHR ''A'' then Inr (CHR ''T'')
      else if c = CHR ''C'' then Inr (CHR ''G'')
      else if c = CHR ''G'' then Inr (CHR ''C'')
      else if c = CHR ''T'' then Inr (CHR ''A'')
      else Inl InvalidBase)"

fun reverseComplement :: "string \<Rightarrow> error + string" where
  "reverseComplement [] = Inr []"
| "reverseComplement (c # cs) =
     (case complement c of
        Inl e \<Rightarrow> Inl e
      | Inr c' \<Rightarrow>
         (case reverseComplement cs of
            Inl e \<Rightarrow> Inl e
          | Inr r \<Rightarrow> Inr (r @ [c'])))"

text \<open>
  \<^verbatim>\<open>FMDIndex::extend\<close>, backwards: one candidate per base, whose forward interval comes
  from the rank structure (the start of every candidate is counted from \<^verbatim>\<open>getPC(c)\<close>, as
  in the source), then the reverse starts handed out in the order of \<^verbatim>\<open>BASES\<close>, after
  the rows that end the text.
\<close>

definition forwardAnswer :: "FMDIndex \<Rightarrow> FMDPosition \<Rightarrow> char \<Rightarrow> char \<Rightarrow> int64_t \<times> int64_t" where
  "forwardAnswer idx rng c base =
     (let start = getPC idx c;
          forwardStartRank = getOcc idx base (forward_start rng - 1);
          forwardEndRank = getOcc idx base (forward_start rng + end_offset rng) - 1
      in (start + forwardStartRank, forwardEndRank - forwardStartRank))"

fun assignReverse :: "int64_t \<Rightarrow> (int64_t \<times> int64_t) list \<Rightarrow> FMDPosition list" where
  "assignReverse r [] = []"
| "assignReverse r ((fs, eo) # rest) =
     \<lparr>forward_start = fs, reverse_start = r, end_offset = eo\<rparr> # assignReverse (r + (eo + 1)) rest"

definition extendAnswers :: "FMDIndex \<Rightarrow> FMDPosition \<Rightarrow> char \<Rightarrow> FMDPosition list" where
  "extendAnswers idx rng c =
     (let fwd = map (forwardAnswer idx rng c) BASES;
          endOfTextLength = fold (\<lambda>(fs, eo) l. l - (eo + 1)) fwd (getLength None rng)
      in assignReverse (reverse_start rng + endOfTextLength) fwd)"

fun answerFor :: "char \<Rightarrow> string \<Rightarrow> FMDPosition list \<Rightarrow> error + FMDPosition" where
  "answerFor c (b # bs) (a # as) = (if b = c then Inr a else answerFor c bs as)"
| "answerFor c _ _ = Inl InvalidBase"

definition extendBackward :: "FMDIndex \<Rightarrow> FMDPosition \<Rightarrow> char \<Rightarrow> error + FMDPosition" where
  "extendBackward idx rng c =
     (if c = CHR 0x00 then Inl InvalidBase
      else if \<not> isBase c then Inl InvalidBase
      else answerFor c BASES (extendAnswers idx rng c))"

definition extend :: "FMDIndex \<Rightarrow> FMDPosition \<Rightarrow> char \<Rightarrow> bool \<Rightarrow> error + FMDPosition" where
  "extend idx rng c backward =
     (if \<not> backward then
        (case complement c of
           Inl e \<Rightarrow> Inl e
         | Inr c' \<Rightarrow>
            (case extendBackward idx (flip rng) c' of
               Inl e \<Rightarrow> Inl e
             | Inr r \<Rightarrow> Inr (flip r)))
      else extendBackward idx rng c)"

section \<open>Mismatch extension\<close>

text \<open>The inner loop over \<^verbatim>\<open>BASES\<close>: one extension per base other than \<open>c\<close>.\<close>

fun extendMismatched ::
  "FMDIndex \<Rightarrow> GenericBitVector option \<Rightarrow> bool \<Rightarrow> FMDPosition \<times> size_t \<Rightarrow> char \<Rightarrow> string
     \<Rightarrow> error + (FMDPosition \<times> size_t) list" where
  "extendMismatched idx msk backward m_position c [] = Inr []"
| "extendMismatched idx msk backward m_position c (b # bs) =
     (if b \<noteq> c then
        (case extend idx (fst m_position) b backward of
           Inl e \<Rightarrow> Inl e
         | Inr p \<Rightarrow>
            (case extendMismatched idx msk backward m_position c bs of
               Inl e \<Rightarrow> Inl e
             | Inr rest \<Rightarrow>
                 Inr ((if 0 < sint (getLength msk p) then [(p, snd m_position + 1)] else []) @ rest)))
      else extendMismatched idx msk backward m_position c bs)"

definition extendMatched ::
  "FMDIndex \<Rightarrow> GenericBitVector option \<Rightarrow> bool \<Rightarrow> FMDPosition \<times> size_t \<Rightarrow> char
     \<Rightarrow> error + (FMDPosition \<times> size_t) list" where
  "extendMatched idx msk backward m_position c =
     (case extend idx (fst m_position) c backward of
        Inl e \<Rightarrow> Inl e
      | Inr p \<Rightarrow> Inr (if 0 < sint (getLength msk p) then [(p, snd m_position)] else []))"

text \<open>The body of the loop over the previous positions: what one of them contributes.\<close>

definition extendOne ::
  "FMDIndex \<Rightarrow> GenericBitVector option \<Rightarrow> bool \<Rightarrow> size_t \<Rightarrow> bool \<Rightarrow> bool \<Rightarrow> char
     \<Rightarrow> FMDPosition \<times> size_t \<Rightarrow> error + (FMDPosition \<times> size_t) list" where
  "extendOne idx msk backward z_max startExtension finishExtension c m_position =
     (if startExtension then extendMatched idx msk backward m_position c
      else if finishExtension then
        (if snd m_position < z_max then extendMismatched idx msk backward m_position c BASES
         else Inr [])
      else
        (case extendMatched idx msk backward m_position c of
           Inl e \<Rightarrow> Inl e
         | Inr matched \<Rightarrow>
            (if snd m_position < z_max then
               (case extendMismatched idx msk backward m_position c BASES of
                  Inl e \<Rightarrow> Inl e
                | Inr mismatched \<Rightarrow> Inr (matched @ mismatched))
             else Inr matched)))"

fun extendEach ::
  "FMDIndex \<Rightarrow> GenericBitVector option \<Rightarrow> bool \<Rightarrow> size_t \<Rightarrow> bool \<Rightarrow> bool \<Rightarrow> char
     \<Rightarrow> (FMDPosition \<times> size_t) list \<Rightarrow> error + (FMDPosition \<times> size_t) list" where
  "extendEach idx msk backward z_max startExtension finishExtension c [] = Inr []"
| "extendEach idx msk backward z_max startExtension finishExtension c (m_position # rest) =
     (case extendOne idx msk backward z_max startExtension finishExtension c m_position of
        Inl e \<Rightarrow> Inl e
      | Inr found \<Rightarrow>
         (case extendEach idx msk backward z_max startExtension finishExtension c rest of
            Inl e \<Rightarrow> Inl e
          | Inr others \<Rightarrow> Inr (found @ others)))"

definition misMatchExtend ::
  "FMDIndex \<Rightarrow> MisMatchAttemptResults \<Rightarrow> char \<Rightarrow> bool \<Rightarrow> size_t \<Rightarrow> GenericBitVector option
     \<Rightarrow> bool \<Rightarrow> bool \<Rightarrow> error + MisMatchAttemptResults" where
  "misMatchExtend idx prevMisMatches c backward z_max msk startExtension finishExtension =
     (case positions prevMisMatches of
        [] \<Rightarrow> Inl ZeroLengthMismatchVector
      | front # _ \<Rightarrow>
         (if isEmpty msk (fst front) then Inl ExtendEmptyPosition
          else if c = CHR 0x00 then Inl InvalidBase
          else if \<not> isBase c then Inl InvalidBase
          else
            (case extendEach idx msk backward z_max startExtension finishExtension c
                    (positions prevMisMatches) of
               Inl e \<Rightarrow> Inl e
             | Inr found \<Rightarrow>
                 Inr \<lparr>positions = (if length found = 0 then [(EMPTY_FMD_POSITION, 0)] else found),
                      mm_is_mapped = mm_is_mapped prevMisMatches,
                      characters = characters prevMisMatches\<rparr>)))"

section \<open>Mapping on the right, on the left, and on both sides\<close>

text \<open>
  \<^verbatim>\<open>FMDIndex::disambiguate\<close>. The comparison \<^verbatim>\<open>left == right\<close> is
  \<^verbatim>\<open>Mapping::operator==\<close>, defined in \<^verbatim>\<open>Mapping.cpp\<close>, which is not among the sources: it
  is the parameter \<open>eq\<close>, and \<open>Mapping_eq\<close> is the comparison the spec's data model gives.
\<close>

definition disambiguate :: "(Mapping \<Rightarrow> Mapping \<Rightarrow> bool) \<Rightarrow> Mapping \<Rightarrow> Mapping \<Rightarrow> Mapping" where
  "disambiguate eq left right =
     (if eq left right \<or> \<not> is_mapped left then right
      else if \<not> is_mapped right then left
      else Mapping_unmapped)"

text \<open>
  The \<^verbatim>\<open>while(extended.isEmpty(mask))\<close> loop of \<^verbatim>\<open>mapRight\<close>. Nothing in the loop bounds
  the number of parent jumps for an arbitrary LCP array, so the loop is a partial function:
  \<open>None\<close> is the loop that never ends. It returns the search position, the pattern length
  and the non-empty extension it settles on.
\<close>

partial_function (option) retractUntilExtends ::
  "FMDIndex \<Rightarrow> GenericBitVector option \<Rightarrow> char \<Rightarrow> FMDPosition \<Rightarrow> size_t \<Rightarrow> FMDPosition
     \<Rightarrow> (error + (FMDPosition \<times> size_t \<times> FMDPosition)) option" where
  "retractUntilExtends idx msk c search patternLength extended =
     (if isEmpty msk extended then
        (if patternLength = 0 then Some (Inl MissingAlphabet)
         else
           (case retractRightOnly idx search of
              Inl e \<Rightarrow> Some (Inl e)
            | Inr (search', patternLength') \<Rightarrow>
                retractUntilExtends idx msk c search' patternLength'
                  (extendLeftOnly idx search' c)))
      else Some (Inr (search, patternLength, extended)))"

declare retractUntilExtends.simps [code]

text \<open>
  What \<^verbatim>\<open>mapRight\<close> pushes for the position it has just searched. \<^verbatim>\<open>minContext\<close> is an
  \<^verbatim>\<open>int\<close> compared with a \<^verbatim>\<open>size_t\<close>: it is sign-extended and compared unsigned.
\<close>

definition mapRight_emit ::
  "FMDIndex \<Rightarrow> GenericBitVector option \<Rightarrow> int_t \<Rightarrow> FMDPosition \<Rightarrow> size_t \<Rightarrow> Mapping" where
  "mapRight_emit idx msk minContext search patternLength =
     (if getLength msk search = 1 \<and> (scast minContext :: size_t) \<le> patternLength then
        (let start = (case msk of
                        None \<Rightarrow> forward_start search
                      | Some bv \<Rightarrow> valueAfter bv (forward_start search));
             textPosition = locate idx start
         in Mapping_at textPosition)
      else Mapping_unmapped)"

text \<open>
  The \<^verbatim>\<open>for\<close> loop of \<^verbatim>\<open>mapRight\<close>, over the characters of the query from the last to
  the first (the list it walks is the reversed query).
\<close>

fun mapRight_loop ::
  "FMDIndex \<Rightarrow> GenericBitVector option \<Rightarrow> int_t \<Rightarrow> string \<Rightarrow> FMDPosition \<Rightarrow> size_t
     \<Rightarrow> Mapping list \<Rightarrow> (error + Mapping list) option" where
  "mapRight_loop idx msk minContext [] search patternLength mappings = Some (Inr mappings)"
| "mapRight_loop idx msk minContext (c # cs) search patternLength mappings =
     (case retractUntilExtends idx msk c search patternLength (extendLeftOnly idx search c) of
        None \<Rightarrow> None
      | Some (Inl e) \<Rightarrow> Some (Inl e)
      | Some (Inr (search0, patternLength0, extended)) \<Rightarrow>
          mapRight_loop idx msk minContext cs extended (patternLength0 + 1)
            (mappings @ [mapRight_emit idx msk minContext extended (patternLength0 + 1)]))"

definition mapRight ::
  "FMDIndex \<Rightarrow> string \<Rightarrow> GenericBitVector option \<Rightarrow> int_t \<Rightarrow> (error + Mapping list) option" where
  "mapRight idx query msk minContext =
     (case mapRight_loop idx msk minContext (rev query) (getCoveringPosition idx) 0 [] of
        None \<Rightarrow> None
      | Some (Inl e) \<Rightarrow> Some (Inl e)
      | Some (Inr mappings) \<Rightarrow> Some (Inr (rev mappings)))"

definition mapRight_genome ::
  "FMDIndex \<Rightarrow> string \<Rightarrow> int64_t \<Rightarrow> int_t \<Rightarrow> (error + Mapping list) option" where
  "mapRight_genome idx query genome minContext =
     mapRight idx query (if genome = - 1 then None else Some (genomeMasks idx genome)) minContext"

text \<open>The fix-up loop of \<^verbatim>\<open>mapLeft\<close>, which rewrites the vector in place.\<close>

function mapLeft_loop :: "FMDIndex \<Rightarrow> nat \<Rightarrow> Mapping list \<Rightarrow> Mapping list" where
  "mapLeft_loop idx i mappings =
     (if i < length mappings then
        (if is_mapped (mappings ! i) then
           (let contigLength = getContigLength idx (getContigNumber (location (mappings ! i)));
                m1 = (mappings ! i)\<lparr>location :=
                        (location (mappings ! i))\<lparr>text_id := text_id (location (mappings ! i)) XOR 1\<rparr>\<rparr>;
                m2 = m1\<lparr>location := (location m1)\<lparr>offset := contigLength - offset (location m1) - 1\<rparr>\<rparr>
            in mapLeft_loop idx (Suc i) (mappings[i := m2]))
         else mapLeft_loop idx (Suc i) mappings)
      else mappings)"
  by pat_completeness auto
termination
  by (relation "measure (\<lambda>(idx, i, mappings). length mappings - i)") auto

declare mapLeft_loop.simps [simp del]

definition mapLeft ::
  "FMDIndex \<Rightarrow> string \<Rightarrow> int64_t \<Rightarrow> int_t \<Rightarrow> (error + Mapping list) option" where
  "mapLeft idx query genome minContext =
     (case reverseComplement query of
        Inl e \<Rightarrow> Some (Inl e)
      | Inr rc \<Rightarrow>
         (case mapRight_genome idx rc genome minContext of
            None \<Rightarrow> None
          | Some (Inl e) \<Rightarrow> Some (Inl e)
          | Some (Inr mappings) \<Rightarrow> Some (Inr (mapLeft_loop idx 0 (rev mappings)))))"

text \<open>The loop of \<^verbatim>\<open>mapBoth\<close>, which disambiguates into the left vector in place.\<close>

function mapBoth_loop ::
  "(Mapping \<Rightarrow> Mapping \<Rightarrow> bool) \<Rightarrow> nat \<Rightarrow> Mapping list \<Rightarrow> Mapping list \<Rightarrow> Mapping list" where
  "mapBoth_loop eq i left right =
     (if i < length left then
        mapBoth_loop eq (Suc i) (left[i := disambiguate eq (left ! i) (right ! i)]) right
      else left)"
  by pat_completeness auto
termination
  by (relation "measure (\<lambda>(eq, i, left, right). length left - i)") auto

declare mapBoth_loop.simps [simp del]

definition mapBoth ::
  "(Mapping \<Rightarrow> Mapping \<Rightarrow> bool) \<Rightarrow> FMDIndex \<Rightarrow> string \<Rightarrow> int64_t \<Rightarrow> int_t
     \<Rightarrow> (error + Mapping list) option" where
  "mapBoth eq idx query genome minContext =
     (case mapRight_genome idx query genome minContext of
        None \<Rightarrow> None
      | Some (Inl e) \<Rightarrow> Some (Inl e)
      | Some (Inr right) \<Rightarrow>
         (case mapLeft idx query genome minContext of
            None \<Rightarrow> None
          | Some (Inl e) \<Rightarrow> Some (Inl e)
          | Some (Inr left) \<Rightarrow>
             (if length left \<noteq> length right then Some (Inl SizeMismatch)
              else Some (Inr (mapBoth_loop eq 0 left right)))))"

section \<open>The credit filter\<close>

text \<open>
  Indices into the vectors are natural numbers; where the source computes with an index in
  \<^verbatim>\<open>size_t\<close> or \<^verbatim>\<open>int64_t\<close> the index is converted to a word. The two sentinels are
  \<^verbatim>\<open>int64_t\<close> variables that start at \<open>-1\<close>: integers here. A read of \<^verbatim>\<open>leftMappings\<close> or
  \<^verbatim>\<open>rightMappings\<close> at an index that is only known to be inside another vector goes
  through \<open>vectorAt\<close>. \<^verbatim>\<open>std::string::substr\<close> throws when the start lies past the end of
  the string.
\<close>

definition vectorAt :: "'a list \<Rightarrow> nat \<Rightarrow> error + 'a" where
  "vectorAt xs i = (if i < length xs then Inr (xs ! i) else Inl VectorOutOfRange)"

definition substr :: "string \<Rightarrow> size_t \<Rightarrow> size_t \<Rightarrow> error + string" where
  "substr s pos len =
     (if length s < unat pos then Inl StringOutOfRange
      else Inr (take (unat len) (drop (unat pos) s)))"

function findLeftSentinel ::
  "CreditFilterDeps \<Rightarrow> Mapping list \<Rightarrow> Mapping list \<Rightarrow> string \<Rightarrow> nat \<Rightarrow> error + int" where
  "findLeftSentinel deps leftMappings disambiguated query i =
     (if i < length disambiguated then
        (case vectorAt leftMappings i of
           Inl e \<Rightarrow> Inl e
         | Inr l \<Rightarrow>
            (if is_mapped l \<and> is_mapped (disambiguated ! i) then
               (let wordLength = getLeftMinContext deps (disambiguated ! i)
                in case substr query (of_nat i + 1 - wordLength) wordLength of
                     Inl e \<Rightarrow> Inl e
                   | Inr word \<Rightarrow>
                      (if misMatchCountMapped deps word then Inr (int i)
                       else findLeftSentinel deps leftMappings disambiguated query (Suc i)))
             else findLeftSentinel deps leftMappings disambiguated query (Suc i)))
      else Inr (- 1))"
  by pat_completeness auto
termination
  by (relation "measure (\<lambda>(deps, leftMappings, disambiguated, query, i). length disambiguated - i)")
    auto

declare findLeftSentinel.simps [simp del]

text \<open>
  The search for the right sentinel runs down from the last index and stops when the index
  wraps around: the argument is one more than the index looked at.
\<close>

fun findRightSentinel ::
  "CreditFilterDeps \<Rightarrow> Mapping list \<Rightarrow> Mapping list \<Rightarrow> string \<Rightarrow> nat \<Rightarrow> error + int" where
  "findRightSentinel deps rightMappings disambiguated query 0 = Inr (- 1)"
| "findRightSentinel deps rightMappings disambiguated query (Suc i) =
     (case vectorAt rightMappings i of
        Inl e \<Rightarrow> Inl e
      | Inr r \<Rightarrow>
         (if is_mapped r \<and> is_mapped (disambiguated ! i) then
            (let wordLength = getRightMinContext deps (disambiguated ! i)
             in case substr query (of_nat i) wordLength of
                  Inl e \<Rightarrow> Inl e
                | Inr word \<Rightarrow>
                   (if misMatchCountMapped deps word then Inr (int i)
                    else findRightSentinel deps rightMappings disambiguated query i))
          else findRightSentinel deps rightMappings disambiguated query i))"

text \<open>
  The two scans for one position \<open>i\<close>. Their state is the triple of the source's three
  variables: whether an implied position was found, the first one found, and whether all
  of them were consistent. A \<^verbatim>\<open>break\<close> returns the state at once.
\<close>

type_synonym credit = "bool \<times> TextPosition \<times> bool"

fun rightScan ::
  "Mapping list \<Rightarrow> Mapping list \<Rightarrow> size_t \<Rightarrow> nat \<Rightarrow> nat \<Rightarrow> credit \<Rightarrow> error + credit" where
  "rightScan rightMappings disambiguated maxRightContext i 0 st = Inr st"
| "rightScan rightMappings disambiguated maxRightContext i (Suc j)
       (rightFound, rightCreditPosition, rightConsistent) =
     (if sint (of_nat i - maxRightContext :: int64_t) \<le> sint (of_nat j :: int64_t) then
        (case vectorAt rightMappings j of
           Inl e \<Rightarrow> Inl e
         | Inr r \<Rightarrow>
            (if \<not> is_mapped r \<or> \<not> is_mapped (disambiguated ! j) then
               rightScan rightMappings disambiguated maxRightContext i j
                 (rightFound, rightCreditPosition, rightConsistent)
             else if rightMaxContext (disambiguated ! j) - 1 < of_nat i - of_nat j then
               rightScan rightMappings disambiguated maxRightContext i j
                 (rightFound, rightCreditPosition, rightConsistent)
             else
               (let implied = addOffset (location (disambiguated ! j)) (of_nat i - of_nat j)
                in if \<not> rightFound then
                     rightScan rightMappings disambiguated maxRightContext i j
                       (True, implied, rightConsistent)
                   else if rightCreditPosition \<noteq> implied then
                     Inr (rightFound, rightCreditPosition, False)
                   else
                     rightScan rightMappings disambiguated maxRightContext i j
                       (rightFound, rightCreditPosition, rightConsistent))))
      else Inr (rightFound, rightCreditPosition, rightConsistent))"

function leftScan ::
  "Mapping list \<Rightarrow> Mapping list \<Rightarrow> size_t \<Rightarrow> nat \<Rightarrow> nat \<Rightarrow> credit \<Rightarrow> error + credit" where
  "leftScan leftMappings disambiguated maxLeftContext i j (leftFound, leftCreditPosition, leftConsistent) =
     (if j < length leftMappings \<and> (of_nat j :: size_t) < of_nat i + maxLeftContext then
        (if \<not> is_mapped (leftMappings ! j) then
           leftScan leftMappings disambiguated maxLeftContext i (Suc j)
             (leftFound, leftCreditPosition, leftConsistent)
         else
           (case vectorAt disambiguated j of
              Inl e \<Rightarrow> Inl e
            | Inr d \<Rightarrow>
               (if \<not> is_mapped d then
                  leftScan leftMappings disambiguated maxLeftContext i (Suc j)
                    (leftFound, leftCreditPosition, leftConsistent)
                else if leftMaxContext d - 1 < of_nat j - of_nat i then
                  leftScan leftMappings disambiguated maxLeftContext i (Suc j)
                    (leftFound, leftCreditPosition, leftConsistent)
                else
                  (let implied = addOffset (location d) (of_nat i - of_nat j)
                   in if \<not> leftFound then
                        leftScan leftMappings disambiguated maxLeftContext i (Suc j)
                          (True, implied, leftConsistent)
                      else if leftCreditPosition \<noteq> implied then
                        Inr (leftFound, leftCreditPosition, False)
                      else
                        leftScan leftMappings disambiguated maxLeftContext i (Suc j)
                          (leftFound, leftCreditPosition, leftConsistent)))))
      else Inr (leftFound, leftCreditPosition, leftConsistent))"
  by pat_completeness auto
termination
  by (relation "measure (\<lambda>(leftMappings, disambiguated, maxLeftContext, i, j, st).
        length leftMappings - j)") auto

declare leftScan.simps [simp del]

text \<open>The decision at the end of the loop body, from the results of the two scans.\<close>

fun creditDecision :: "credit \<Rightarrow> credit \<Rightarrow> Mapping" where
  "creditDecision (leftFound, leftCreditPosition, leftConsistent)
       (rightFound, rightCreditPosition, rightConsistent) =
     (if leftFound \<and> leftConsistent then
        (if rightFound \<and> rightConsistent then
           (if leftCreditPosition = rightCreditPosition then Mapping_at leftCreditPosition
            else Mapping_unmapped)
         else Mapping_at leftCreditPosition)
      else if rightFound \<and> rightConsistent then Mapping_at rightCreditPosition
      else Mapping_unmapped)"

definition noCredit :: credit where
  "noCredit = (False, \<lparr>text_id = 0, offset = 0\<rparr>, True)"

text \<open>What the loop body pushes for an unmapped base \<open>i\<close> between the sentinels.\<close>

definition creditMap ::
  "Mapping list \<Rightarrow> Mapping list \<Rightarrow> Mapping list \<Rightarrow> size_t \<Rightarrow> size_t \<Rightarrow> nat \<Rightarrow> error + Mapping" where
  "creditMap leftMappings rightMappings disambiguated maxLeftContext maxRightContext i =
     (case rightScan rightMappings disambiguated maxRightContext i i noCredit of
        Inl e \<Rightarrow> Inl e
      | Inr rightCredit \<Rightarrow>
         (case leftScan leftMappings disambiguated maxLeftContext i (Suc i) noCredit of
            Inl e \<Rightarrow> Inl e
          | Inr leftCredit \<Rightarrow> Inr (creditDecision leftCredit rightCredit)))"

text \<open>The loop over the bases between the sentinels.\<close>

function creditBetween ::
  "Mapping list \<Rightarrow> Mapping list \<Rightarrow> Mapping list \<Rightarrow> size_t \<Rightarrow> size_t \<Rightarrow> nat \<Rightarrow> nat
     \<Rightarrow> Mapping list \<Rightarrow> error + Mapping list" where
  "creditBetween leftMappings rightMappings disambiguated maxLeftContext maxRightContext
       rightSentinel i toReturn =
     (if i < rightSentinel then
        (if is_mapped (disambiguated ! i) then
           creditBetween leftMappings rightMappings disambiguated maxLeftContext maxRightContext
             rightSentinel (Suc i) (toReturn @ [disambiguated ! i])
         else
           (case creditMap leftMappings rightMappings disambiguated maxLeftContext
                   maxRightContext i of
              Inl e \<Rightarrow> Inl e
            | Inr m \<Rightarrow>
                creditBetween leftMappings rightMappings disambiguated maxLeftContext
                  maxRightContext rightSentinel (Suc i) (toReturn @ [m])))
      else Inr toReturn)"
  by pat_completeness auto
termination
  by (relation "measure (\<lambda>(leftMappings, rightMappings, disambiguated, maxLeftContext,
        maxRightContext, rightSentinel, i, toReturn). rightSentinel - i)") auto

declare creditBetween.simps [simp del]

text \<open>The loop that takes the greatest left and right context of the disambiguated mappings.\<close>

definition maxLeftContextOf :: "Mapping list \<Rightarrow> size_t" where
  "maxLeftContextOf disambiguated = fold (\<lambda>m acc. max acc (leftMaxContext m)) disambiguated 0"

definition maxRightContextOf :: "Mapping list \<Rightarrow> size_t" where
  "maxRightContextOf disambiguated = fold (\<lambda>m acc. max acc (rightMaxContext m)) disambiguated 0"

text \<open>
  \<^verbatim>\<open>CreditFilter2::apply\<close>. The two loops that copy the bases up to the left sentinel and
  from the right sentinel on are \<open>take\<close> and \<open>drop\<close>.
\<close>

definition CreditFilter2_apply ::
  "CreditFilterDeps \<Rightarrow> Mapping list \<Rightarrow> Mapping list \<Rightarrow> string \<Rightarrow> error + Mapping list" where
  "CreditFilter2_apply deps leftMappings rightMappings query =
     (case disambiguateFilter deps leftMappings rightMappings of
        Inl e \<Rightarrow> Inl e
      | Inr disambiguated \<Rightarrow>
         (case findLeftSentinel deps leftMappings disambiguated query 0 of
            Inl e \<Rightarrow> Inl e
          | Inr leftSentinel \<Rightarrow>
             (case findRightSentinel deps rightMappings disambiguated query
                     (length disambiguated) of
                Inl e \<Rightarrow> Inl e
              | Inr rightSentinel \<Rightarrow>
                 (if leftSentinel = - 1 \<or> rightSentinel = - 1 \<or> rightSentinel \<le> leftSentinel
                  then Inr disambiguated
                  else
                    (let maxLeftContext = maxLeftContextOf disambiguated;
                         maxRightContext = maxRightContextOf disambiguated;
                         toReturn = take (nat leftSentinel + 1) disambiguated
                     in case creditBetween leftMappings rightMappings disambiguated
                               maxLeftContext maxRightContext (nat rightSentinel)
                               (nat leftSentinel + 1) toReturn of
                          Inl e \<Rightarrow> Inl e
                        | Inr credited \<Rightarrow>
                            Inr (credited @ drop (nat rightSentinel) disambiguated))))))"

section \<open>The index builder\<close>

text \<open>
  The file system is the list of the paths that exist. \<^verbatim>\<open>remove_all\<close> removes a directory
  and everything below it; \<^verbatim>\<open>copy_file\<close> throws when the source is missing or the target
  exists. The model follows the process that called \<^verbatim>\<open>add\<close>: when \<^verbatim>\<open>fork\<close> returns in
  the child and \<^verbatim>\<open>execlp\<close> succeeds, the process image is replaced and \<^verbatim>\<open>add\<close> never
  returns, which is \<open>None\<close>. \<^verbatim>\<open>merge\<close> forks as well and does not look at the status of
  its child; the model keeps to its parent.
\<close>

definition createPath :: "string \<Rightarrow> string list \<Rightarrow> string list" where
  "createPath p fs = (if p \<in> set fs then fs else p # fs)"

definition remove_all :: "string \<Rightarrow> string list \<Rightarrow> string list" where
  "remove_all dir fs =
     filter (\<lambda>p. \<not> (p = dir \<or> take (length dir + 1) p = dir @ ''/'')) fs"

definition copy_file :: "string \<Rightarrow> string \<Rightarrow> string list \<Rightarrow> (error + unit) \<times> string list" where
  "copy_file src dst fs =
     (if src \<in> set fs \<and> dst \<notin> set fs then (Inr (), dst # fs) else (Inl CopyFailed, fs))"

definition merge :: "string \<Rightarrow> string \<Rightarrow> string list \<Rightarrow> (error + unit) \<times> string list" where
  "merge basename otherBasename fs =
     (if (basename @ ''.rlcsa.array'') \<in> set fs then (Inr (), fs)
      else
        (case copy_file (otherBasename @ ''.rlcsa.array'') (basename @ ''.rlcsa.array'') fs of
           (Inl e, fs1) \<Rightarrow> (Inl e, fs1)
         | (Inr u1, fs1) \<Rightarrow>
            (case copy_file (otherBasename @ ''.rlcsa.parameters'')
                    (basename @ ''.rlcsa.parameters'') fs1 of
               (Inl e, fs2) \<Rightarrow> (Inl e, fs2)
             | (Inr u2, fs2) \<Rightarrow>
                 copy_file (otherBasename @ ''.rlcsa.sa_samples'')
                   (basename @ ''.rlcsa.sa_samples'') fs2)))"

definition add ::
  "BuilderEnv \<Rightarrow> string \<Rightarrow> string \<Rightarrow> string list \<Rightarrow> ((error + unit) \<times> string list) option" where
  "add env basename filename fs =
     (let tempDir = tempDirName env;
          fs1 = createPath tempDir fs;
          haplotypeFilename = tempDir @ ''/haplotypes'';
          fs2 = createPath haplotypeFilename fs1;
          fs3 = createPath (basename @ ''.chrom.sizes'') fs2
      in if \<not> fastaOpens env then Some (Inl FastaOpenFailed, fs3)
         else
           (let fs4 = createPath (tempDir @ ''/haplotypes.rlcsa.parameters'') fs3
            in case forkResult env of
                 Child execOk \<Rightarrow> (if execOk then None else Some (Inl ExecFailed, fs4))
               | Parent status \<Rightarrow>
                  (let fs5 = fold createPath (builderFiles env) fs4
                   in if status \<noteq> 0 then Some (Inl IndexBuildFailed, fs5)
                      else
                        (case merge basename haplotypeFilename fs5 of
                           (Inl e, fs6) \<Rightarrow> Some (Inl e, fs6)
                         | (Inr u, fs6) \<Rightarrow> Some (Inr (), remove_all tempDir fs6)))))"

section \<open>A small index\<close>

text \<open>
  The index of the one contig \<open>AA\<close>: text 0 is \<open>AA\<close>, text 1 its reverse complement \<open>TT\<close>.
  The sorted suffixes are the two text ends, \<open>A\<close> (text 0, offset 1), \<open>AA\<close> (text 0,
  offset 0), \<open>T\<close> (text 1, offset 1) and \<open>TT\<close> (text 1, offset 0); the BWT is the character
  before each. The LCP values with their previous and next smaller values are those the
  scans of \<^verbatim>\<open>LCPArray.cpp\<close> compute.
\<close>

definition AA_bwt :: string where
  "AA_bwt = ''ATA$T$''"

definition AA_occ :: "char \<Rightarrow> int64_t \<Rightarrow> int64_t" where
  "AA_occ c i = of_nat (length (filter (\<lambda>x. x = c) (take (nat (sint i + 1)) AA_bwt)))"

definition AA_pc :: "char \<Rightarrow> int64_t" where
  "AA_pc c = (if c = CHR ''$'' then 0 else if c = CHR ''A'' then 2 else 4)"

definition tableAt :: "'a list \<Rightarrow> 'a \<Rightarrow> 64 word \<Rightarrow> 'a" where
  "tableAt xs d i = (if unat i < length xs then xs ! unat i else d)"

definition AA_index :: FMDIndex where
  "AA_index =
     \<lparr>getBWLen = 6,
      getPC = AA_pc,
      getOcc = AA_occ,
      lcpArray = tableAt [0, 0, 0, 1, 0, 1] 0,
      getPSV = tableAt [0, 0, 0, 2, 0, 4] 0,
      getNSV = tableAt [6, 6, 6, 4, 6, 6] 6,
      calcSA = tableAt
        [\<lparr>text_id = 0, offset = 2\<rparr>, \<lparr>text_id = 1, offset = 2\<rparr>, \<lparr>text_id = 0, offset = 1\<rparr>,
         \<lparr>text_id = 0, offset = 0\<rparr>, \<lparr>text_id = 1, offset = 1\<rparr>, \<lparr>text_id = 1, offset = 0\<rparr>]
        \<lparr>text_id = 0, offset = 0\<rparr>,
      lengths = (\<lambda>contig. 2),
      genomeMasks = (\<lambda>genome. replicate 6 True)\<rparr>"

text \<open>
  Modelled from the spec: \<^verbatim>\<open>DisambiguateFilter::apply\<close> is not among the sources. Entry
  \<open>i\<close> of its result is \<open>disambiguate(left[i], right[i])\<close>. Here every word is found uniquely
  and every minimum context is one base: the dependencies of the credit filter in the
  examples.
\<close>

definition exampleDeps :: CreditFilterDeps where
  "exampleDeps =
     \<lparr>disambiguateFilter =
        (\<lambda>leftMappings rightMappings.
           if length leftMappings \<noteq> length rightMappings then Inl SizeMismatch
           else Inr (map2 (disambiguate (=)) leftMappings rightMappings)),
      misMatchCountMapped = (\<lambda>word. True),
      getLeftMinContext = (\<lambda>m. 1),
      getRightMinContext = (\<lambda>m. 1)\<rparr>"

definition mappedAt :: "nat \<Rightarrow> nat \<Rightarrow> nat \<Rightarrow> nat \<Rightarrow> Mapping" where
  "mappedAt t off lctx rctx =
     (Mapping_at \<lparr>text_id = of_nat t, offset = of_nat off\<rparr>)
       \<lparr>leftMaxContext := of_nat lctx, rightMaxContext := of_nat rctx\<rparr>"

section \<open>Statements of the specification\<close>

text \<open>
  The states of \<^verbatim>\<open>mapRight\<close>: the search position and the pattern length the loop holds
  after each character, in the order the loop produces them.
\<close>

fun mapRight_states ::
  "FMDIndex \<Rightarrow> GenericBitVector option \<Rightarrow> string \<Rightarrow> FMDPosition \<Rightarrow> size_t
     \<Rightarrow> (error + (FMDPosition \<times> size_t) list) option" where
  "mapRight_states idx msk [] search patternLength = Some (Inr [])"
| "mapRight_states idx msk (c # cs) search patternLength =
     (case retractUntilExtends idx msk c search patternLength (extendLeftOnly idx search c) of
        None \<Rightarrow> None
      | Some (Inl e) \<Rightarrow> Some (Inl e)
      | Some (Inr (search0, patternLength0, extended)) \<Rightarrow>
         (case mapRight_states idx msk cs extended (patternLength0 + 1) of
            None \<Rightarrow> None
          | Some (Inl e) \<Rightarrow> Some (Inl e)
          | Some (Inr rest) \<Rightarrow> Some (Inr ((extended, patternLength0 + 1) # rest))))"

text \<open>The BWT row \<^verbatim>\<open>mapRight\<close> locates: the first row of the interval that passes the mask.\<close>

definition survivingRow :: "GenericBitVector option \<Rightarrow> FMDPosition \<Rightarrow> int64_t" where
  "survivingRow msk search =
     (case msk of
        None \<Rightarrow> forward_start search
      | Some bv \<Rightarrow> valueAfter bv (forward_start search))"

text \<open>
  The parent jump in the spec's words: for the forward interval \<open>[a, b)\<close>, the LCP values at
  \<open>a\<close> and at \<open>b\<close> (0 when \<open>b\<close> is out of bounds), the index carrying the greater one (the
  start on a tie), and the greater value.
\<close>

definition lcpAtStart :: "FMDIndex \<Rightarrow> FMDPosition \<Rightarrow> size_t" where
  "lcpAtStart idx p = lcpArray idx (forward_start p)"

definition lcpAtEnd :: "FMDIndex \<Rightarrow> FMDPosition \<Rightarrow> size_t" where
  "lcpAtEnd idx p =
     (let b = forward_start p + end_offset p + 1
      in if b < getBWTLength idx then lcpArray idx b else 0)"

definition parentIndex :: "FMDIndex \<Rightarrow> FMDPosition \<Rightarrow> size_t" where
  "parentIndex idx p =
     (if lcpAtEnd idx p \<le> lcpAtStart idx p then forward_start p
      else forward_start p + end_offset p + 1)"

definition parentDepth :: "FMDIndex \<Rightarrow> FMDPosition \<Rightarrow> size_t" where
  "parentDepth idx p = max (lcpAtStart idx p) (lcpAtEnd idx p)"

text \<open>
  Flipping a mapping to the opposite strand in the spec's words: the text number is XORed
  with 1 and the offset reflected within the contig; an unmapped mapping is unchanged.
\<close>

definition flipStrand :: "FMDIndex \<Rightarrow> Mapping \<Rightarrow> Mapping" where
  "flipStrand idx m =
     (if is_mapped m then
        m\<lparr>location :=
            \<lparr>text_id = text_id (location m) XOR 1,
             offset = getContigLength idx (getContigNumber (location m)) - offset (location m) - 1\<rparr>\<rparr>
      else m)"

definition mapLeft_spec ::
  "FMDIndex \<Rightarrow> string \<Rightarrow> int64_t \<Rightarrow> int_t \<Rightarrow> (error + Mapping list) option" where
  "mapLeft_spec idx query genome minContext =
     (case reverseComplement query of
        Inl e \<Rightarrow> Some (Inl e)
      | Inr rc \<Rightarrow>
         (case mapRight_genome idx rc genome minContext of
            None \<Rightarrow> None
          | Some (Inl e) \<Rightarrow> Some (Inl e)
          | Some (Inr mappings) \<Rightarrow> Some (Inr (map (flipStrand idx) (rev mappings)))))"

text \<open>The agree-to-map rule in the spec's words, for the entries \<open>r\<close> and \<open>l\<close> of one base.\<close>

definition agreeToMap :: "(Mapping \<Rightarrow> Mapping \<Rightarrow> bool) \<Rightarrow> Mapping \<Rightarrow> Mapping \<Rightarrow> Mapping" where
  "agreeToMap eq r l =
     (if eq r l then r
      else if \<not> is_mapped l then r
      else if \<not> is_mapped r then l
      else Mapping_unmapped)"

text \<open>A side of the credit search gives credit when it found a position and all agreed.\<close>

fun givesCredit :: "credit \<Rightarrow> bool" where
  "givesCredit (found, position, consistent) = (found \<and> consistent)"

fun creditPosition :: "credit \<Rightarrow> TextPosition" where
  "creditPosition (found, position, consistent) = position"


text \<open>The state that holds the whole BWT of the small index and no mismatch.\<close>

definition AA_start :: MisMatchAttemptResults where
  "AA_start =
     \<lparr>positions = [(getCoveringPosition AA_index, 0)], mm_is_mapped = False, characters = 0\<rparr>"

text \<open>
  Left and right mappings of a query of six bases for the credit filter. Base 0 is mapped
  on the left and base 5 on the right: the sentinels. Between them base 3 is unmapped;
  bases 1 and 2 are mapped on the right with right contexts that reach base 3 and place it
  at two different offsets, and base 4 is mapped on the left with a left context that
  reaches base 3.
\<close>

definition creditLeft :: "Mapping list" where
  "creditLeft =
     [mappedAt 0 9 1 1, Mapping_unmapped, Mapping_unmapped, Mapping_unmapped,
      mappedAt 0 13 5 1, Mapping_unmapped]"

definition creditRight :: "Mapping list" where
  "creditRight =
     [Mapping_unmapped, mappedAt 0 50 1 5, mappedAt 0 10 1 5, Mapping_unmapped,
      Mapping_unmapped, mappedAt 0 15 1 1]"

definition creditDisambiguated :: "Mapping list" where
  "creditDisambiguated =
     [mappedAt 0 9 1 1, mappedAt 0 50 1 5, mappedAt 0 10 1 5, Mapping_unmapped,
      mappedAt 0 13 5 1, mappedAt 0 15 1 1]"

text \<open>
  A build in which the FASTA file opens and the child process reports a nonzero status.
\<close>

definition failingEnv :: BuilderEnv where
  "failingEnv =
     \<lparr>tempDirName = ''/tmp/fmd'', fastaOpens = True, forkResult = Parent 256,
      builderFiles = []\<rparr>"

section \<open>Retraction\<close>

text \<open>
  C5. For a position whose forward interval starts inside the BWT, the one-argument
  \<^verbatim>\<open>retractRightOnly\<close> does not fail and performs exactly one parent jump: the new forward
  interval is \<open>[PSV(i), NSV(i))\<close> for the index \<open>i\<close> that carries the greater of the LCP
  values at the two ends (the start on a tie, an end out of bounds counting as 0), the
  reverse start is untouched, and the value returned is that greater LCP value.
\<close>

theorem retractRightOnly_parent_jump:
  assumes "forward_start p < getBWTLength idx"
  shows "\<exists>p'. retractRightOnly idx p = Inr (p', parentDepth idx p)
           \<and> forward_start p' = getPSV idx (parentIndex idx p)
           \<and> forward_start p' + end_offset p' + 1 = getNSV idx (parentIndex idx p)
           \<and> reverse_start p' = reverse_start p"
  using assms
  by (auto simp: retractRightOnly_def getLCP_def getLCPPSV_def getLCPNSV_def Let_def
      parentDepth_def parentIndex_def lcpAtStart_def lcpAtEnd_def max_def not_le not_less)

theorem retractRightOnly_parent_jump_witness:
  "\<exists>p'. retractRightOnly AA_index \<lparr>forward_start = 3, reverse_start = 0, end_offset = 0\<rparr>
            = Inr (p', 1)
        \<and> forward_start p' = 2
        \<and> forward_start p' + end_offset p' + 1 = 4
        \<and> reverse_start p' = 0"
proof -
  let ?p = "\<lparr>forward_start = 3, reverse_start = 0, end_offset = 0\<rparr>"
  have h: "forward_start ?p < getBWTLength AA_index"
    by (simp add: AA_index_def getBWTLength_def)
  have i: "parentIndex AA_index ?p = 3"
    by (simp add: AA_index_def getBWTLength_def parentIndex_def lcpAtStart_def lcpAtEnd_def
        tableAt_def)
  have d: "parentDepth AA_index ?p = 1"
    by (simp add: AA_index_def getBWTLength_def parentDepth_def lcpAtStart_def lcpAtEnd_def
        tableAt_def)
  have v: "getPSV AA_index 3 = 2 \<and> getNSV AA_index 3 = 4"
    by (simp add: AA_index_def tableAt_def)
  show ?thesis
    using retractRightOnly_parent_jump [OF h] unfolding i d by (simp add: v)
qed

section \<open>Disambiguation\<close>

lemma disambiguate_unmapped_left: "\<not> is_mapped a \<Longrightarrow> disambiguate eq a b = b"
  by (simp add: disambiguate_def)








section \<open>Mismatch extension never returns an empty vector\<close>

lemma isBase_cases: "isBase c \<longleftrightarrow> c = CHR ''T'' \<or> c = CHR ''G'' \<or> c = CHR ''C'' \<or> c = CHR ''A''"
  by (auto simp: isBase_def BASES_def)

lemma complement_isBase: "isBase c \<Longrightarrow> \<exists>c'. complement c = Inr c' \<and> isBase c'"
  by (auto simp: isBase_cases complement_def)

lemma length_assignReverse: "length (assignReverse r xs) = length xs"
  by (induction r xs rule: assignReverse.induct) simp_all

lemma answerFor_member:
  "c \<in> set bs \<Longrightarrow> length as = length bs \<Longrightarrow> \<exists>a. answerFor c bs as = Inr a"
proof (induction bs arbitrary: as)
  case Nil
  then show ?case by simp
next
  case (Cons b bs)
  then obtain a as' where "as = a # as'" by (cases as) auto
  with Cons show ?case by auto
qed

lemma extendBackward_isBase: "isBase c \<Longrightarrow> \<exists>p. extendBackward idx rng c = Inr p"
proof -
  assume c: "isBase c"
  then have nz: "c \<noteq> CHR 0x00" by (auto simp: isBase_cases)
  have "length (extendAnswers idx rng c) = length BASES"
    by (simp add: extendAnswers_def Let_def length_assignReverse)
  with c have "\<exists>a. answerFor c BASES (extendAnswers idx rng c) = Inr a"
    by (intro answerFor_member) (simp_all add: isBase_def)
  with c nz show ?thesis by (simp add: extendBackward_def)
qed

lemma extend_isBase: "isBase c \<Longrightarrow> \<exists>p. extend idx rng c backward = Inr p"
proof (cases backward)
  case True
  assume "isBase c"
  from extendBackward_isBase [OF this] True show ?thesis by (simp add: extend_def)
next
  case False
  assume "isBase c"
  from complement_isBase [OF this] obtain c' where c': "complement c = Inr c'" "isBase c'" by blast
  from extendBackward_isBase [OF c'(2)] obtain p where "extendBackward idx (flip rng) c' = Inr p" by blast
  with c' False show ?thesis by (simp add: extend_def)
qed

lemma extendMismatched_survivors:
  "\<forall>b \<in> set bs. isBase b \<Longrightarrow>
   \<exists>found. extendMismatched idx msk backward m c bs = Inr found
      \<and> (\<forall>pz \<in> set found. 0 < sint (getLength msk (fst pz)))"
proof (induction bs)
  case Nil
  then show ?case by simp
next
  case (Cons b bs)
  then obtain rest where rest: "extendMismatched idx msk backward m c bs = Inr rest"
      "\<forall>pz \<in> set rest. 0 < sint (getLength msk (fst pz))" by auto
  from Cons.prems have "isBase b" by simp
  from extend_isBase [OF this] obtain p where p: "extend idx (fst m) b backward = Inr p" by blast
  show ?case using rest p by auto
qed

lemma extendMatched_survivors:
  "isBase c \<Longrightarrow>
   \<exists>found. extendMatched idx msk backward m c = Inr found
      \<and> (\<forall>pz \<in> set found. 0 < sint (getLength msk (fst pz)))"
proof -
  assume "isBase c"
  from extend_isBase [OF this] obtain p where "extend idx (fst m) c backward = Inr p" by blast
  then show ?thesis by (simp add: extendMatched_def)
qed

lemma BASES_isBase: "\<forall>b \<in> set BASES. isBase b"
  by (simp add: isBase_def)

lemma extendOne_survivors:
  assumes "isBase c"
  shows "\<exists>found. extendOne idx msk backward z_max se fe c m = Inr found
      \<and> (\<forall>pz \<in> set found. 0 < sint (getLength msk (fst pz)))"
proof -
  from extendMatched_survivors [OF assms] obtain ma where
    ma: "extendMatched idx msk backward m c = Inr ma" "\<forall>pz \<in> set ma. 0 < sint (getLength msk (fst pz))"
    by blast
  from extendMismatched_survivors [OF BASES_isBase] obtain mi where
    mi: "extendMismatched idx msk backward m c BASES = Inr mi" "\<forall>pz \<in> set mi. 0 < sint (getLength msk (fst pz))"
    by blast
  show ?thesis using ma mi by (auto simp: extendOne_def)
qed

lemma extendEach_survivors:
  assumes "isBase c"
  shows "\<exists>found. extendEach idx msk backward z_max se fe c ms = Inr found
      \<and> (\<forall>pz \<in> set found. 0 < sint (getLength msk (fst pz)))"
proof (induction ms)
  case Nil
  then show ?case by simp
next
  case (Cons m ms)
  then obtain others where others: "extendEach idx msk backward z_max se fe c ms = Inr others"
      "\<forall>pz \<in> set others. 0 < sint (getLength msk (fst pz))" by blast
  from extendOne_survivors [OF assms] obtain found where
    found: "extendOne idx msk backward z_max se fe c m = Inr found"
      "\<forall>pz \<in> set found. 0 < sint (getLength msk (fst pz))" by blast
  show ?case using others found by auto
qed

text \<open>
  C10. When the previous state has at least one position, its first position is not empty
  under the mask and the character is a base, \<^verbatim>\<open>misMatchExtend\<close> returns a result (it does
  not fail) whose positions are the extensions that survive under the mask, in order, or,
  when none survives, the single pair of \<^verbatim>\<open>EMPTY_FMD_POSITION\<close> and 0. The vector of
  positions is never empty.
\<close>

theorem misMatchExtend_positions_nonempty:
  assumes "positions prev \<noteq> []"
    and "\<not> isEmpty msk (fst (hd (positions prev)))"
    and "isBase c"
  shows "\<exists>res found.
           misMatchExtend idx prev c backward z_max msk startExtension finishExtension = Inr res
         \<and> extendEach idx msk backward z_max startExtension finishExtension c (positions prev)
             = Inr found
         \<and> (\<forall>pz \<in> set found. 0 < sint (getLength msk (fst pz)))
         \<and> positions res = (if found = [] then [(EMPTY_FMD_POSITION, 0)] else found)
         \<and> positions res \<noteq> []"
proof -
  from extendEach_survivors [OF assms(3)] obtain found where
    found: "extendEach idx msk backward z_max startExtension finishExtension c (positions prev) = Inr found"
      "\<forall>pz \<in> set found. 0 < sint (getLength msk (fst pz))" by blast
  from assms(3) have nz: "c \<noteq> CHR 0x00" by (auto simp: isBase_cases)
  from assms(1) obtain front rest where fr: "positions prev = front # rest"
    by (cases "positions prev") auto
  with assms(2) have ne: "\<not> isEmpty msk (fst front)" by simp
  have "misMatchExtend idx prev c backward z_max msk startExtension finishExtension =
      Inr \<lparr>positions = (if found = [] then [(EMPTY_FMD_POSITION, 0)] else found),
           mm_is_mapped = mm_is_mapped prev, characters = characters prev\<rparr>"
    using found(1) nz ne assms(3) fr by (simp add: misMatchExtend_def)
  with found show ?thesis by auto
qed

theorem misMatchExtend_positions_nonempty_witness:
  "positions AA_start \<noteq> []
   \<and> \<not> isEmpty None (fst (hd (positions AA_start)))
   \<and> isBase (CHR ''C'')
   \<and> (\<exists>res. misMatchExtend AA_index AA_start (CHR ''C'') True 0 None False False = Inr res
          \<and> positions res = [(EMPTY_FMD_POSITION, 0)])"
proof -
  have h1: "positions AA_start \<noteq> []"
    by (simp add: AA_start_def)
  have h2: "\<not> isEmpty None (fst (hd (positions AA_start)))"
    by (simp add: AA_start_def isEmpty_def getLength_def getCoveringPosition_def
        getBWTLength_def AA_index_def)
  have h3: "isBase (CHR ''C'')"
    by (simp add: isBase_def BASES_def)
  have none: "extendEach AA_index None True 0 False False (CHR ''C'') (positions AA_start) = Inr []"
    by code_simp
  from misMatchExtend_positions_nonempty [OF h1 h2 h3, of AA_index True 0 False False]
  obtain res found where
    res: "misMatchExtend AA_index AA_start (CHR ''C'') True 0 None False False = Inr res"
    and found: "extendEach AA_index None True 0 False False (CHR ''C'') (positions AA_start)
        = Inr found"
    and pos: "positions res = (if found = [] then [(EMPTY_FMD_POSITION, 0)] else found)"
    by blast
  from found none have "found = []" by simp
  with pos res h1 h2 h3 show ?thesis by simp
qed

section \<open>Mapping on the right\<close>

lemma mapRight_loop_states:
  "mapRight_loop idx msk minContext cs search patternLength acc =
     (case mapRight_states idx msk cs search patternLength of
        None \<Rightarrow> None
      | Some (Inl e) \<Rightarrow> Some (Inl e)
      | Some (Inr sts) \<Rightarrow>
          Some (Inr (acc @ map (\<lambda>(s, l). mapRight_emit idx msk minContext s l) sts)))"
proof (induction cs arbitrary: search patternLength acc)
  case Nil
  then show ?case by simp
next
  case (Cons c cs)
  show ?case
  proof (cases "retractUntilExtends idx msk c search patternLength (extendLeftOnly idx search c)")
    case None
    then show ?thesis by simp
  next
    case (Some r)
    show ?thesis
    proof (cases r)
      case (Inl e)
      with Some show ?thesis by simp
    next
      case (Inr t)
      obtain s0 l0 ext where t: "t = (s0, l0, ext)" by (cases t) auto
      show ?thesis
        using Some Inr t Cons.IH [of ext "l0 + 1"]
        by (simp split: option.splits sum.splits)
    qed
  qed
qed

lemma mapRight_states_length:
  "mapRight_states idx msk cs search patternLength = Some (Inr sts) \<Longrightarrow> length sts = length cs"
proof (induction cs arbitrary: search patternLength sts)
  case Nil
  then show ?case by simp
next
  case (Cons c cs)
  then show ?case
    by (fastforce split: option.splits sum.splits prod.splits)
qed


lemma mapRight_by_states:
  "mapRight idx query msk minContext =
     (case mapRight_states idx msk (rev query) (getCoveringPosition idx) 0 of
        None \<Rightarrow> None
      | Some (Inl e) \<Rightarrow> Some (Inl e)
      | Some (Inr sts) \<Rightarrow>
          Some (Inr (rev (map (\<lambda>(s, l). mapRight_emit idx msk minContext s l) sts))))"
  by (simp add: mapRight_def mapRight_loop_states split: option.splits sum.splits)

lemma mapRight_emit_mapped:
  "is_mapped (mapRight_emit idx msk minContext search patternLength) \<Longrightarrow>
     getLength msk search = 1 \<and> scast minContext \<le> patternLength
     \<and> mapRight_emit idx msk minContext search patternLength
         = Mapping_at (locate idx (survivingRow msk search))"
  by (auto simp: mapRight_emit_def survivingRow_def Mapping_unmapped_def Let_def
      split: if_splits)

text \<open>
  C1, as amended. Whenever \<^verbatim>\<open>mapRight\<close> emits a mapped Mapping at a query position, the
  search interval the loop holds there has length exactly 1 under the mask, the pattern
  length is at least \<^verbatim>\<open>minContext\<close>, and the emitted location is the located (text, offset)
  of the single surviving BWT row itself, with nothing added to the offset: the pattern
  was extended to the left, so the located suffix starts at the query position.
\<close>

theorem mapRight_emits_located_row:
  assumes "mapRight idx query msk minContext = Some (Inr mappings)"
    and "i < length query"
    and "is_mapped (mappings ! i)"
  shows "\<exists>sts search patternLength.
           mapRight_states idx msk (rev query) (getCoveringPosition idx) 0 = Some (Inr sts)
         \<and> sts ! (length query - 1 - i) = (search, patternLength)
         \<and> getLength msk search = 1
         \<and> scast minContext \<le> patternLength
         \<and> mappings ! i = Mapping_at (locate idx (survivingRow msk search))
         \<and> location (mappings ! i) = locate idx (survivingRow msk search)"
proof -
  from assms(1) obtain sts where
    sts: "mapRight_states idx msk (rev query) (getCoveringPosition idx) 0 = Some (Inr sts)"
    and ms: "mappings = rev (map (\<lambda>(s, l). mapRight_emit idx msk minContext s l) sts)"
    by (auto simp: mapRight_by_states split: option.splits sum.splits)
  from mapRight_states_length [OF sts] have len: "length sts = length query" by simp
  obtain search patternLength where st: "sts ! (length query - 1 - i) = (search, patternLength)"
    by (cases "sts ! (length query - 1 - i)") auto
  from assms(2) len have "mappings ! i = mapRight_emit idx msk minContext search patternLength"
    using st by (simp add: ms rev_nth)
  with assms(3) mapRight_emit_mapped [of idx msk minContext search patternLength]
  have "getLength msk search = 1 \<and> scast minContext \<le> patternLength
     \<and> mappings ! i = Mapping_at (locate idx (survivingRow msk search))"
    by simp
  with sts st show ?thesis by (simp add: Mapping_at_def)
qed

theorem mapRight_emits_located_row_witness:
  "mapRight AA_index ''AA'' None 1
      = Some (Inr [Mapping_at \<lparr>text_id = 0, offset = 0\<rparr>, Mapping_unmapped])
   \<and> (\<exists>sts search patternLength.
         mapRight_states AA_index None (rev ''AA'') (getCoveringPosition AA_index) 0
           = Some (Inr sts)
       \<and> sts ! (length ''AA'' - 1 - 0) = (search, patternLength)
       \<and> getLength None search = 1
       \<and> scast (1 :: int_t) \<le> patternLength
       \<and> location ([Mapping_at \<lparr>text_id = 0, offset = 0\<rparr>, Mapping_unmapped] ! 0)
           = locate AA_index (survivingRow None search))"
proof -
  have h1: "mapRight AA_index ''AA'' None 1
      = Some (Inr [Mapping_at \<lparr>text_id = 0, offset = 0\<rparr>, Mapping_unmapped])"
    by code_simp
  have h2: "0 < length ''AA''" by simp
  have h3: "is_mapped ([Mapping_at \<lparr>text_id = 0, offset = 0\<rparr>, Mapping_unmapped] ! 0)"
    by (simp add: Mapping_at_def)
  from mapRight_emits_located_row [OF h1 h2 h3] h1 show ?thesis by blast
qed

text \<open>
  C1 as stated fails on the index of the contig \<open>AA\<close>: for the query \<open>AA\<close> the first
  position is mapped with pattern length 2, the surviving row is row 3, located at text 0,
  offset 0, and that is the emitted location; adding \<open>L - 1 = 1\<close> to the offset would give
  offset 1.
\<close>

theorem mapRight_rightmost_counterexample:
  "mapRight AA_index ''AA'' None 1
      = Some (Inr [Mapping_at \<lparr>text_id = 0, offset = 0\<rparr>, Mapping_unmapped])
   \<and> mapRight_states AA_index None (rev ''AA'') (getCoveringPosition AA_index) 0
      = Some (Inr [(\<lparr>forward_start = 2, reverse_start = 0, end_offset = 1\<rparr>, 1),
                   (\<lparr>forward_start = 3, reverse_start = 0, end_offset = 0\<rparr>, 2)])
   \<and> locate AA_index (survivingRow None \<lparr>forward_start = 3, reverse_start = 0, end_offset = 0\<rparr>)
      = \<lparr>text_id = 0, offset = 0\<rparr>
   \<and> location (Mapping_at \<lparr>text_id = 0, offset = 0\<rparr>)
      \<noteq> \<lparr>text_id = 0, offset = 0 + (2 - 1)\<rparr>"
  by code_simp






section \<open>Mapping on the left and on both sides\<close>

lemma TextPosition_update_all:
  "(p::TextPosition)\<lparr>text_id := a, offset := b\<rparr> = \<lparr>text_id = a, offset = b\<rparr>"
  by (cases p) simp

lemma mapLeft_loop_length: "length (mapLeft_loop idx i mappings) = length mappings"
  by (induction idx i mappings rule: mapLeft_loop.induct)
    (subst mapLeft_loop.simps, simp add: Let_def)

lemma mapLeft_loop_flips:
  "mapLeft_loop idx i mappings = take i mappings @ map (flipStrand idx) (drop i mappings)"
proof (induction idx i mappings rule: mapLeft_loop.induct)
  case (1 idx i mappings)
  show ?case
  proof (cases "i < length mappings")
    case False
    then show ?thesis by (subst mapLeft_loop.simps) simp
  next
    case True
    note lt = this
    have dr: "drop i mappings = mappings ! i # drop (Suc i) mappings"
      using lt by (simp add: Cons_nth_drop_Suc)
    show ?thesis
    proof (cases "is_mapped (mappings ! i)")
      case False
      have "mapLeft_loop idx i mappings = mapLeft_loop idx (Suc i) mappings"
        using lt False by (subst mapLeft_loop.simps) simp
      also have "\<dots> = take (Suc i) mappings @ map (flipStrand idx) (drop (Suc i) mappings)"
        using "1.IH"(2) [OF lt False] .
      also have "\<dots> = take i mappings @ map (flipStrand idx) (drop i mappings)"
        using lt False by (simp add: dr take_Suc_conv_app_nth flipStrand_def)
      finally show ?thesis .
    next
      case True
      let ?m = "flipStrand idx (mappings ! i)"
      have "mapLeft_loop idx i mappings = mapLeft_loop idx (Suc i) (mappings[i := ?m])"
        using lt True
        by (subst mapLeft_loop.simps) (simp add: Let_def flipStrand_def TextPosition_update_all)
      also have "\<dots> = take (Suc i) (mappings[i := ?m])
            @ map (flipStrand idx) (drop (Suc i) (mappings[i := ?m]))"
        using "1.IH"(1) [OF lt True refl refl refl]
        by (simp add: Let_def flipStrand_def True TextPosition_update_all)
      also have "\<dots> = take i mappings @ map (flipStrand idx) (drop i mappings)"
        using lt by (simp add: dr take_Suc_conv_app_nth)
      finally show ?thesis .
    qed
  qed
qed

lemma complement_involution: "complement c = Inr c' \<Longrightarrow> complement c' = Inr c"
  by (auto simp: complement_def split: if_splits)

lemma reverseComplement_append:
  "reverseComplement xs = Inr rx \<Longrightarrow> reverseComplement ys = Inr ry \<Longrightarrow>
     reverseComplement (xs @ ys) = Inr (ry @ rx)"
  by (induction xs arbitrary: rx) (auto split: sum.splits)

lemma reverseComplement_involution:
  "reverseComplement q = Inr rq \<Longrightarrow> reverseComplement rq = Inr q"
proof (induction q arbitrary: rq)
  case Nil
  then show ?case by simp
next
  case (Cons c cs)
  then obtain c' r where c': "complement c = Inr c'" and r: "reverseComplement cs = Inr r"
    and rq: "rq = r @ [c']"
    by (auto split: sum.splits)
  from Cons.IH [OF r] have "reverseComplement r = Inr cs" .
  moreover from complement_involution [OF c'] have "reverseComplement [c'] = Inr [c]" by simp
  ultimately show ?case
    using rq reverseComplement_append [of r cs "[c']" "[c]"] by simp
qed

text \<open>
  C8. \<^verbatim>\<open>mapLeft\<close> of a query is \<^verbatim>\<open>mapRight\<close> of its reverse complement, with the result
  vector reversed and every mapped TextPosition flipped to the opposite strand (text
  number XOR 1, offset reflected within the contig), unmapped entries unchanged. And for a
  query that has a reverse complement, flipping the reversed \<^verbatim>\<open>mapRight\<close> result of the
  query gives the \<^verbatim>\<open>mapLeft\<close> result of the reverse complement.
\<close>

theorem mapLeft_is_flipped_mapRight:
  "mapLeft idx query genome minContext = mapLeft_spec idx query genome minContext
   \<and> (\<forall>rq R. reverseComplement query = Inr rq \<longrightarrow>
         mapRight_genome idx query genome minContext = Some (Inr R) \<longrightarrow>
           mapLeft idx rq genome minContext = Some (Inr (map (flipStrand idx) (rev R))))"
proof (intro conjI allI impI)
  show "mapLeft idx query genome minContext = mapLeft_spec idx query genome minContext"
    by (simp add: mapLeft_def mapLeft_spec_def mapLeft_loop_flips
        split: sum.splits option.splits)
next
  fix rq R
  assume rq: "reverseComplement query = Inr rq"
    and R: "mapRight_genome idx query genome minContext = Some (Inr R)"
  from reverseComplement_involution [OF rq] have "reverseComplement rq = Inr query" .
  with R show "mapLeft idx rq genome minContext = Some (Inr (map (flipStrand idx) (rev R)))"
    by (simp add: mapLeft_def mapLeft_loop_flips)
qed

theorem mapLeft_is_flipped_mapRight_witness:
  "mapLeft AA_index ''AA'' (- 1) 1 = mapLeft_spec AA_index ''AA'' (- 1) 1
   \<and> reverseComplement ''AA'' = Inr ''TT''
   \<and> mapRight_genome AA_index ''AA'' (- 1) 1
       = Some (Inr [Mapping_at \<lparr>text_id = 0, offset = 0\<rparr>, Mapping_unmapped])
   \<and> mapLeft AA_index ''TT'' (- 1) 1
       = Some (Inr (map (flipStrand AA_index)
           (rev [Mapping_at \<lparr>text_id = 0, offset = 0\<rparr>, Mapping_unmapped])))
   \<and> map (flipStrand AA_index) (rev [Mapping_at \<lparr>text_id = 0, offset = 0\<rparr>, Mapping_unmapped])
       = [Mapping_unmapped, Mapping_at \<lparr>text_id = 1, offset = 1\<rparr>]"
proof -
  have rc: "reverseComplement ''AA'' = Inr ''TT''"
    by code_simp
  have r: "mapRight_genome AA_index ''AA'' (- 1) 1
      = Some (Inr [Mapping_at \<lparr>text_id = 0, offset = 0\<rparr>, Mapping_unmapped])"
    by code_simp
  have f: "map (flipStrand AA_index) (rev [Mapping_at \<lparr>text_id = 0, offset = 0\<rparr>, Mapping_unmapped])
      = [Mapping_unmapped, Mapping_at \<lparr>text_id = 1, offset = 1\<rparr>]"
    by code_simp
  from mapLeft_is_flipped_mapRight [of AA_index "''AA''" "- 1" 1] rc r f
  show ?thesis by blast
qed

lemma mapBoth_loop_length: "length (mapBoth_loop eq i left right) = length left"
  by (induction eq i left right rule: mapBoth_loop.induct)
    (subst mapBoth_loop.simps, simp)

lemma mapBoth_loop_nth:
  "k < length left \<Longrightarrow>
     mapBoth_loop eq i left right ! k =
       (if i \<le> k then disambiguate eq (left ! k) (right ! k) else left ! k)"
proof (induction eq i left right rule: mapBoth_loop.induct)
  case (1 eq i left right)
  show ?case
  proof (cases "i < length left")
    case False
    with "1.prems" show ?thesis by (subst mapBoth_loop.simps) simp
  next
    case True
    have "mapBoth_loop eq i left right ! k =
        mapBoth_loop eq (Suc i) (left[i := disambiguate eq (left ! i) (right ! i)]) right ! k"
      using True by (subst mapBoth_loop.simps) simp
    also have "\<dots> = (if Suc i \<le> k
        then disambiguate eq (left[i := disambiguate eq (left ! i) (right ! i)] ! k) (right ! k)
        else left[i := disambiguate eq (left ! i) (right ! i)] ! k)"
      using "1.IH" [OF True] "1.prems" by simp
    also have "\<dots> = (if i \<le> k then disambiguate eq (left ! k) (right ! k) else left ! k)"
      using True "1.prems" by (cases "k = i") (auto simp: nth_list_update)
    finally show ?thesis .
  qed
qed

lemma reverseComplement_length: "reverseComplement q = Inr rq \<Longrightarrow> length rq = length q"
  by (induction q arbitrary: rq) (auto split: sum.splits)

lemma mapRight_length:
  "mapRight idx query msk minContext = Some (Inr ms) \<Longrightarrow> length ms = length query"
  by (auto simp: mapRight_by_states split: option.splits sum.splits dest: mapRight_states_length)

lemma mapLeft_length:
  "mapLeft idx query genome minContext = Some (Inr ms) \<Longrightarrow> length ms = length query"
  by (auto simp: mapLeft_def mapRight_genome_def mapLeft_loop_length reverseComplement_length
      split: option.splits sum.splits dest!: mapRight_length)

lemma disambiguate_agreeToMap:
  "(\<And>a b. eq a b = eq b a) \<Longrightarrow> disambiguate eq l r = agreeToMap eq r l"
  by (simp add: disambiguate_def agreeToMap_def)

text \<open>
  \<^verbatim>\<open>mapBoth\<close> fails or does not return exactly when \<^verbatim>\<open>mapRight\<close> or \<^verbatim>\<open>mapLeft\<close> does:
  the two vectors always have the length of the query, so the size check never throws.
\<close>

lemma mapBoth_by_parts:
  "mapBoth eq idx query genome minContext =
     (case mapRight_genome idx query genome minContext of
        None \<Rightarrow> None
      | Some (Inl e) \<Rightarrow> Some (Inl e)
      | Some (Inr R) \<Rightarrow>
         (case mapLeft idx query genome minContext of
            None \<Rightarrow> None
          | Some (Inl e) \<Rightarrow> Some (Inl e)
          | Some (Inr L) \<Rightarrow> Some (Inr (mapBoth_loop eq 0 L R))))"
proof -
  have "length L = length R"
    if "mapRight_genome idx query genome minContext = Some (Inr R)"
      and "mapLeft idx query genome minContext = Some (Inr L)" for R L
    using that mapLeft_length [of idx query genome minContext L]
      mapRight_length [of idx query _ minContext R]
    by (simp add: mapRight_genome_def)
  then show ?thesis
    by (auto simp: mapBoth_def split: option.splits sum.splits)
qed

text \<open>
  C3. For a symmetric comparison of mappings: whenever \<^verbatim>\<open>mapRight\<close> and \<^verbatim>\<open>mapLeft\<close> return
  their vectors \<open>R\<close> and \<open>L\<close> for a query, \<^verbatim>\<open>mapBoth\<close> returns a vector as well (the size
  check does not throw); \<open>R\<close>, \<open>L\<close> and the result have the length of the query, and entry
  \<open>i\<close> of the result is the combination of \<open>R[i]\<close> and \<open>L[i]\<close> under the agree-to-map rule:
  \<open>R[i]\<close> when the two are equal or \<open>L[i]\<close> is unmapped, \<open>L[i]\<close> when only \<open>R[i]\<close> is unmapped,
  and unmapped when both are mapped and disagree.
\<close>

theorem mapBoth_agree_to_map:
  assumes sym: "\<And>a b. eq a b = eq b a"
    and R: "mapRight_genome idx query genome minContext = Some (Inr R)"
    and L: "mapLeft idx query genome minContext = Some (Inr L)"
  shows "\<exists>res. mapBoth eq idx query genome minContext = Some (Inr res)
           \<and> length R = length query \<and> length L = length query
           \<and> length res = length query
           \<and> (\<forall>i < length query. res ! i = agreeToMap eq (R ! i) (L ! i))"
proof -
  from R have lR: "length R = length query"
    by (simp add: mapRight_genome_def mapRight_length)
  from L have lL: "length L = length query" by (rule mapLeft_length)
  have res: "mapBoth eq idx query genome minContext = Some (Inr (mapBoth_loop eq 0 L R))"
    using R L by (simp add: mapBoth_by_parts)
  have "mapBoth_loop eq 0 L R ! i = agreeToMap eq (R ! i) (L ! i)" if "i < length query" for i
    using that lL by (simp add: mapBoth_loop_nth disambiguate_agreeToMap [OF sym])
  with res lR lL show ?thesis by (simp add: mapBoth_loop_length)
qed

theorem mapBoth_agree_to_map_witness:
  "mapRight_genome AA_index ''AA'' (- 1) 1
      = Some (Inr [Mapping_at \<lparr>text_id = 0, offset = 0\<rparr>, Mapping_unmapped])
   \<and> mapLeft AA_index ''AA'' (- 1) 1
      = Some (Inr [Mapping_unmapped, Mapping_at \<lparr>text_id = 0, offset = 1\<rparr>])
   \<and> mapBoth (=) AA_index ''AA'' (- 1) 1
      = Some (Inr [Mapping_at \<lparr>text_id = 0, offset = 0\<rparr>, Mapping_at \<lparr>text_id = 0, offset = 1\<rparr>])
   \<and> Mapping_at \<lparr>text_id = 0, offset = 0\<rparr>
      = agreeToMap (=) (Mapping_at \<lparr>text_id = 0, offset = 0\<rparr>) Mapping_unmapped
   \<and> Mapping_at \<lparr>text_id = 0, offset = 1\<rparr>
      = agreeToMap (=) Mapping_unmapped (Mapping_at \<lparr>text_id = 0, offset = 1\<rparr>)"
proof -
  let ?R = "[Mapping_at \<lparr>text_id = 0, offset = 0\<rparr>, Mapping_unmapped]"
  let ?L = "[Mapping_unmapped, Mapping_at \<lparr>text_id = 0, offset = 1\<rparr>]"
  let ?res = "[Mapping_at \<lparr>text_id = 0, offset = 0\<rparr>, Mapping_at \<lparr>text_id = 0, offset = 1\<rparr>]"
  have r: "mapRight_genome AA_index ''AA'' (- 1) 1 = Some (Inr ?R)"
    by code_simp
  have l: "mapLeft AA_index ''AA'' (- 1) 1 = Some (Inr ?L)"
    by code_simp
  have h: "mapBoth (=) AA_index ''AA'' (- 1) 1 = Some (Inr ?res)"
    by code_simp
  have sym: "\<And>a b :: Mapping. (a = b) = (b = a)" by auto
  from mapBoth_agree_to_map [of "(=)", OF sym r l] obtain res where
    res: "mapBoth (=) AA_index ''AA'' (- 1) 1 = Some (Inr res)"
    and each: "\<forall>i < length ''AA''. res ! i = agreeToMap (=) (?R ! i) (?L ! i)"
    by blast
  from res h have res': "res = ?res" by simp
  from each [rule_format, of 0] have "res ! 0 = agreeToMap (=) (?R ! 0) (?L ! 0)" by simp
  moreover from each [rule_format, of 1] have "res ! 1 = agreeToMap (=) (?R ! 1) (?L ! 1)" by simp
  ultimately show ?thesis using h r l unfolding res' by simp
qed

section \<open>The credit filter rewrites only unmapped bases between the sentinels\<close>

lemma findLeftSentinel_range:
  "findLeftSentinel deps leftMappings disambiguated query i = Inr l \<Longrightarrow>
     l = - 1 \<or> (int i \<le> l \<and> l < int (length disambiguated))"
proof (induction "length disambiguated - i" arbitrary: i)
  case 0
  then show ?case
    by (subst (asm) findLeftSentinel.simps) (auto split: if_splits)
next
  case (Suc n)
  then have lt: "i < length disambiguated" by simp
  from Suc.prems lt
  have "l = int i \<or> findLeftSentinel deps leftMappings disambiguated query (Suc i) = Inr l"
    by (subst (asm) findLeftSentinel.simps) (auto simp: Let_def split: if_splits sum.splits)
  then show ?case
  proof
    assume "l = int i"
    with lt show ?thesis by simp
  next
    assume r: "findLeftSentinel deps leftMappings disambiguated query (Suc i) = Inr l"
    from Suc.hyps(2) have "n = length disambiguated - Suc i" by simp
    from Suc.hyps(1) [OF this r] show ?thesis by auto
  qed
qed

lemma findRightSentinel_range:
  "findRightSentinel deps rightMappings disambiguated query n = Inr r \<Longrightarrow>
     r = - 1 \<or> (0 \<le> r \<and> r < int n)"
proof (induction n)
  case 0
  then show ?case by simp
next
  case (Suc n)
  then show ?case
    by (auto simp: Let_def split: if_splits sum.splits)
qed

lemma creditBetween_result:
  "creditBetween leftMappings rightMappings disambiguated maxL maxR rightSentinel i toReturn
       = Inr out \<Longrightarrow> i \<le> rightSentinel \<Longrightarrow>
   \<exists>ys. out = toReturn @ ys \<and> length ys = rightSentinel - i
      \<and> (\<forall>k. i \<le> k \<and> k < rightSentinel \<longrightarrow>
            (if is_mapped (disambiguated ! k) then ys ! (k - i) = disambiguated ! k
             else creditMap leftMappings rightMappings disambiguated maxL maxR k
                    = Inr (ys ! (k - i))))"
proof (induction leftMappings rightMappings disambiguated maxL maxR rightSentinel i toReturn
    arbitrary: out rule: creditBetween.induct)
  case (1 leftMappings rightMappings disambiguated maxL maxR rightSentinel i toReturn)
  show ?case
  proof (cases "i < rightSentinel")
    case False
    with "1.prems" show ?thesis
      by (subst (asm) creditBetween.simps) auto
  next
    case True
    note lt = this
    let ?P = "\<lambda>k m. if is_mapped (disambiguated ! k) then m = disambiguated ! k
             else creditMap leftMappings rightMappings disambiguated maxL maxR k = Inr m"
    have step: "\<exists>x. ?P i x \<and>
        creditBetween leftMappings rightMappings disambiguated maxL maxR rightSentinel (Suc i)
          (toReturn @ [x]) = Inr out
        \<and> (is_mapped (disambiguated ! i) \<or>
             creditMap leftMappings rightMappings disambiguated maxL maxR i = Inr x)"
      using "1.prems"(1) lt
      by (subst (asm) creditBetween.simps) (auto split: sum.splits if_splits)
    then obtain x where Px: "?P i x"
      and rest: "creditBetween leftMappings rightMappings disambiguated maxL maxR rightSentinel
          (Suc i) (toReturn @ [x]) = Inr out"
      and how: "is_mapped (disambiguated ! i) \<or>
             creditMap leftMappings rightMappings disambiguated maxL maxR i = Inr x"
      by blast
    have "\<exists>ys. out = (toReturn @ [x]) @ ys \<and> length ys = rightSentinel - Suc i
      \<and> (\<forall>k. Suc i \<le> k \<and> k < rightSentinel \<longrightarrow> ?P k (ys ! (k - Suc i)))"
    proof (cases "is_mapped (disambiguated ! i)")
      case True
      with Px have "x = disambiguated ! i" by simp
      with "1.IH"(1) [OF lt True, of out] rest lt show ?thesis by simp
    next
      case False
      with how have "creditMap leftMappings rightMappings disambiguated maxL maxR i = Inr x"
        by simp
      from "1.IH"(2) [OF lt False this, of out] rest lt show ?thesis by simp
    qed
    then obtain ys where out: "out = (toReturn @ [x]) @ ys"
      and len: "length ys = rightSentinel - Suc i"
      and rest: "\<forall>k. Suc i \<le> k \<and> k < rightSentinel \<longrightarrow> ?P k (ys ! (k - Suc i))"
      by blast
    have "\<forall>k. i \<le> k \<and> k < rightSentinel \<longrightarrow> ?P k ((x # ys) ! (k - i))"
    proof (intro allI impI)
      fix k
      assume k: "i \<le> k \<and> k < rightSentinel"
      show "?P k ((x # ys) ! (k - i))"
      proof (cases "k = i")
        case True
        with Px show ?thesis by simp
      next
        case False
        with k have "Suc i \<le> k" by simp
        with k rest have "?P k (ys ! (k - Suc i))" by blast
        moreover from \<open>Suc i \<le> k\<close> have "(x # ys) ! (k - i) = ys ! (k - Suc i)"
          by (simp add: nth_Cons')
        ultimately show ?thesis by simp
      qed
    qed
    moreover have "out = toReturn @ (x # ys)" using out by simp
    moreover have "length (x # ys) = rightSentinel - i" using len lt by simp
    ultimately show ?thesis by blast
  qed
qed

lemma creditDecision_mapped:
  "is_mapped (creditDecision leftCredit rightCredit) \<longleftrightarrow>
     (givesCredit leftCredit \<or> givesCredit rightCredit)
     \<and> (givesCredit leftCredit \<and> givesCredit rightCredit \<longrightarrow>
          creditPosition leftCredit = creditPosition rightCredit)"
  by (cases leftCredit; cases rightCredit)
    (auto simp: Mapping_at_def Mapping_unmapped_def)

lemma creditDecision_location:
  "is_mapped (creditDecision leftCredit rightCredit) \<Longrightarrow>
     creditDecision leftCredit rightCredit =
       Mapping_at (if givesCredit leftCredit then creditPosition leftCredit
                   else creditPosition rightCredit)"
  by (cases leftCredit; cases rightCredit)
    (auto simp: Mapping_unmapped_def split: if_splits)

lemma apply_between:
  assumes filter: "disambiguateFilter deps leftMappings rightMappings = Inr dis"
    and ls: "findLeftSentinel deps leftMappings dis query 0 = Inr l"
    and rs: "findRightSentinel deps rightMappings dis query (length dis) = Inr r"
    and between: "\<not> (l = - 1 \<or> r = - 1 \<or> r \<le> l)"
    and out: "CreditFilter2_apply deps leftMappings rightMappings query = Inr out"
  shows "\<exists>ys. out = take (nat l + 1) dis @ ys @ drop (nat r) dis
      \<and> length ys = nat r - (nat l + 1)
      \<and> nat l < nat r \<and> nat r < length dis \<and> 0 \<le> l
      \<and> (\<forall>k. nat l + 1 \<le> k \<and> k < nat r \<longrightarrow>
            (if is_mapped (dis ! k) then ys ! (k - (nat l + 1)) = dis ! k
             else creditMap leftMappings rightMappings dis (maxLeftContextOf dis)
                    (maxRightContextOf dis) k = Inr (ys ! (k - (nat l + 1)))))"
proof -
  from findLeftSentinel_range [OF ls] between have l: "0 \<le> l" "l < int (length dis)" by auto
  from findRightSentinel_range [OF rs] between have r: "0 \<le> r" "r < int (length dis)" by auto
  from between l r have lr: "nat l + 1 \<le> nat r" by auto
  from out filter ls rs between obtain credited where
    cb: "creditBetween leftMappings rightMappings dis (maxLeftContextOf dis)
           (maxRightContextOf dis) (nat r) (nat l + 1) (take (nat l + 1) dis) = Inr credited"
    and o: "out = credited @ drop (nat r) dis"
    by (auto simp: CreditFilter2_apply_def Let_def split: sum.splits)
  from creditBetween_result [OF cb lr] obtain ys where
    "credited = take (nat l + 1) dis @ ys" "length ys = nat r - (nat l + 1)"
    "\<forall>k. nat l + 1 \<le> k \<and> k < nat r \<longrightarrow>
            (if is_mapped (dis ! k) then ys ! (k - (nat l + 1)) = dis ! k
             else creditMap leftMappings rightMappings dis (maxLeftContextOf dis)
                    (maxRightContextOf dis) k = Inr (ys ! (k - (nat l + 1))))"
    by blast
  with o l r lr show ?thesis by auto
qed

lemma nth_three_parts:
  assumes "a \<le> b" "b \<le> length xs" "length ys = b - a"
  shows "length (take a xs @ ys @ drop b xs) = length xs"
    and "i < a \<Longrightarrow> (take a xs @ ys @ drop b xs) ! i = xs ! i"
    and "b \<le> i \<Longrightarrow> i < length xs \<Longrightarrow> (take a xs @ ys @ drop b xs) ! i = xs ! i"
    and "a \<le> i \<Longrightarrow> i < b \<Longrightarrow> (take a xs @ ys @ drop b xs) ! i = ys ! (i - a)"
  using assms by (auto simp: nth_append min_def)

text \<open>
  C6. Let the disambiguation filter and the two sentinel searches return. If either
  sentinel is missing or the right sentinel is not after the left one,
  \<^verbatim>\<open>CreditFilter2::apply\<close> returns exactly the disambiguated vector. In every case its
  result has the length of the disambiguated vector and equals it at every position at or
  before the left sentinel, at or after the right sentinel, and wherever the disambiguated
  entry is mapped: only unmapped entries strictly between the sentinels can be rewritten.
\<close>

theorem CreditFilter2_apply_frame:
  assumes filter: "disambiguateFilter deps leftMappings rightMappings = Inr dis"
    and ls: "findLeftSentinel deps leftMappings dis query 0 = Inr l"
    and rs: "findRightSentinel deps rightMappings dis query (length dis) = Inr r"
  shows "(l = - 1 \<or> r = - 1 \<or> r \<le> l \<longrightarrow>
            CreditFilter2_apply deps leftMappings rightMappings query = Inr dis)
       \<and> (\<forall>out. CreditFilter2_apply deps leftMappings rightMappings query = Inr out \<longrightarrow>
            length out = length dis
            \<and> (\<forall>i < length dis.
                  int i \<le> l \<or> r \<le> int i \<or> is_mapped (dis ! i) \<longrightarrow> out ! i = dis ! i))"
proof (intro conjI impI allI)
  assume "l = - 1 \<or> r = - 1 \<or> r \<le> l"
  with filter ls rs show "CreditFilter2_apply deps leftMappings rightMappings query = Inr dis"
    by (simp add: CreditFilter2_apply_def)
next
  fix out
  assume out: "CreditFilter2_apply deps leftMappings rightMappings query = Inr out"
  show "length out = length dis"
  proof (cases "l = - 1 \<or> r = - 1 \<or> r \<le> l")
    case True
    with filter ls rs out show ?thesis by (simp add: CreditFilter2_apply_def)
  next
    case False
    from apply_between [OF filter ls rs False out] obtain ys where
      o: "out = take (nat l + 1) dis @ ys @ drop (nat r) dis"
      and len: "length ys = nat r - (nat l + 1)"
      and lr: "nat l < nat r" "nat r < length dis" by blast
    have parts: "nat l + 1 \<le> nat r" "nat r \<le> length dis" using lr by linarith+
    show ?thesis unfolding o by (rule nth_three_parts(1) [OF parts len])
  qed
next
  fix out i
  assume out: "CreditFilter2_apply deps leftMappings rightMappings query = Inr out"
    and i: "i < length dis"
    and where_i: "int i \<le> l \<or> r \<le> int i \<or> is_mapped (dis ! i)"
  show "out ! i = dis ! i"
  proof (cases "l = - 1 \<or> r = - 1 \<or> r \<le> l")
    case True
    with filter ls rs out show ?thesis by (simp add: CreditFilter2_apply_def)
  next
    case False
    from apply_between [OF filter ls rs False out] obtain ys where
      o: "out = take (nat l + 1) dis @ ys @ drop (nat r) dis"
      and len: "length ys = nat r - (nat l + 1)"
      and lr: "nat l < nat r" "nat r < length dis" "0 \<le> l"
      and mid: "\<forall>k. nat l + 1 \<le> k \<and> k < nat r \<longrightarrow>
            (if is_mapped (dis ! k) then ys ! (k - (nat l + 1)) = dis ! k
             else creditMap leftMappings rightMappings dis (maxLeftContextOf dis)
                    (maxRightContextOf dis) k = Inr (ys ! (k - (nat l + 1))))"
      by blast
    have parts: "nat l + 1 \<le> nat r" "nat r \<le> length dis" using lr by linarith+
    consider "i < nat l + 1" | "nat r \<le> i" | "nat l + 1 \<le> i" "i < nat r" by linarith
    then show ?thesis
    proof cases
      case 1
      then show ?thesis using nth_three_parts(2) [OF parts len] o by simp
    next
      case 2
      then show ?thesis using nth_three_parts(3) [OF parts len] o i by simp
    next
      case 3
      with where_i lr have m: "is_mapped (dis ! i)" by auto
      from 3 have "out ! i = ys ! (i - (nat l + 1))"
        using nth_three_parts(4) [OF parts len] o by simp
      also from mid [rule_format, of i] 3 m have "\<dots> = dis ! i" by simp
      finally show ?thesis .
    qed
  qed
qed

theorem CreditFilter2_apply_frame_witness:
  "CreditFilter2_apply exampleDeps [Mapping_unmapped] [Mapping_unmapped] ''A''
      = Inr [Mapping_unmapped]
   \<and> findLeftSentinel exampleDeps creditLeft creditDisambiguated ''AAAAAA'' 0 = Inr 0
   \<and> findRightSentinel exampleDeps creditRight creditDisambiguated ''AAAAAA''
        (length creditDisambiguated) = Inr 5
   \<and> (\<exists>out. CreditFilter2_apply exampleDeps creditLeft creditRight ''AAAAAA'' = Inr out
         \<and> length out = length creditDisambiguated
         \<and> out ! 0 = creditDisambiguated ! 0
         \<and> out ! 2 = creditDisambiguated ! 2
         \<and> out ! 5 = creditDisambiguated ! 5)"
proof -
  have f0: "disambiguateFilter exampleDeps [Mapping_unmapped] [Mapping_unmapped]
      = Inr [Mapping_unmapped]"
    by code_simp
  have l0: "findLeftSentinel exampleDeps [Mapping_unmapped] [Mapping_unmapped] ''A'' 0
      = Inr (- 1)"
    by code_simp
  have r0: "findRightSentinel exampleDeps [Mapping_unmapped] [Mapping_unmapped] ''A''
      (length [Mapping_unmapped]) = Inr (- 1)"
    by code_simp
  from CreditFilter2_apply_frame [OF f0 l0 r0]
  have none: "CreditFilter2_apply exampleDeps [Mapping_unmapped] [Mapping_unmapped] ''A''
      = Inr [Mapping_unmapped]"
    by simp
  have f: "disambiguateFilter exampleDeps creditLeft creditRight = Inr creditDisambiguated"
    by code_simp
  have l: "findLeftSentinel exampleDeps creditLeft creditDisambiguated ''AAAAAA'' 0 = Inr 0"
    by code_simp
  have r: "findRightSentinel exampleDeps creditRight creditDisambiguated ''AAAAAA''
      (length creditDisambiguated) = Inr 5"
    by code_simp
  have o: "CreditFilter2_apply exampleDeps creditLeft creditRight ''AAAAAA''
      = Inr (creditDisambiguated[3 := Mapping_at \<lparr>text_id = 0, offset = 12\<rparr>])"
    by code_simp
  have len: "length creditDisambiguated = 6"
    by (simp add: creditDisambiguated_def)
  have m2: "is_mapped (creditDisambiguated ! 2)"
    by (simp add: creditDisambiguated_def mappedAt_def Mapping_at_def)
  let ?out = "creditDisambiguated[3 := Mapping_at \<lparr>text_id = 0, offset = 12\<rparr>]"
  from CreditFilter2_apply_frame [OF f l r] o
  have frame: "length ?out = length creditDisambiguated
      \<and> (\<forall>i < length creditDisambiguated.
            int i \<le> 0 \<or> 5 \<le> int i \<or> is_mapped (creditDisambiguated ! i)
              \<longrightarrow> ?out ! i = creditDisambiguated ! i)"
    by blast
  from frame [THEN conjunct2, rule_format, of 0] len
  have a: "?out ! 0 = creditDisambiguated ! 0" by simp
  from frame [THEN conjunct2, rule_format, of 2] len m2
  have b: "?out ! 2 = creditDisambiguated ! 2" by simp
  from frame [THEN conjunct2, rule_format, of 5] len
  have c: "?out ! 5 = creditDisambiguated ! 5" by simp
  from none l r o frame a b c show ?thesis by blast
qed

text \<open>
  C7, as amended. For an unmapped position strictly between two sentinels that exist, the
  result of \<^verbatim>\<open>CreditFilter2::apply\<close> at the position is decided by the two scans. A side
  gives credit when it found an implied position and all the implied positions it saw
  agreed. The result is mapped exactly when at least one side gives credit and, when both
  do, their positions agree; it is then mapped to the position of a side that gives
  credit. A side whose implied positions are inconsistent gives no credit, and the other
  side alone decides.
\<close>

theorem CreditFilter2_apply_credit:
  assumes filter: "disambiguateFilter deps leftMappings rightMappings = Inr dis"
    and ls: "findLeftSentinel deps leftMappings dis query 0 = Inr l"
    and rs: "findRightSentinel deps rightMappings dis query (length dis) = Inr r"
    and out: "CreditFilter2_apply deps leftMappings rightMappings query = Inr out"
    and i: "0 \<le> l" "l < int i" "int i < r"
    and unmapped: "\<not> is_mapped (dis ! i)"
  shows "\<exists>leftCredit rightCredit.
           rightScan rightMappings dis (maxRightContextOf dis) i i noCredit = Inr rightCredit
         \<and> leftScan leftMappings dis (maxLeftContextOf dis) i (Suc i) noCredit = Inr leftCredit
         \<and> out ! i = creditDecision leftCredit rightCredit
         \<and> (is_mapped (out ! i) \<longleftrightarrow>
              (givesCredit leftCredit \<or> givesCredit rightCredit)
              \<and> (givesCredit leftCredit \<and> givesCredit rightCredit \<longrightarrow>
                   creditPosition leftCredit = creditPosition rightCredit))
         \<and> (is_mapped (out ! i) \<longrightarrow>
              out ! i = Mapping_at (if givesCredit leftCredit then creditPosition leftCredit
                                    else creditPosition rightCredit))"
proof -
  from i have between: "\<not> (l = - 1 \<or> r = - 1 \<or> r \<le> l)" by auto
  from apply_between [OF filter ls rs between out] obtain ys where
    o: "out = take (nat l + 1) dis @ ys @ drop (nat r) dis"
    and len: "length ys = nat r - (nat l + 1)"
    and lr: "nat l < nat r" "nat r < length dis"
    and mid: "\<forall>k. nat l + 1 \<le> k \<and> k < nat r \<longrightarrow>
          (if is_mapped (dis ! k) then ys ! (k - (nat l + 1)) = dis ! k
           else creditMap leftMappings rightMappings dis (maxLeftContextOf dis)
                  (maxRightContextOf dis) k = Inr (ys ! (k - (nat l + 1))))"
    by blast
  have parts: "nat l + 1 \<le> nat r" "nat r \<le> length dis" using lr by linarith+
  from i have ii: "nat l + 1 \<le> i" "i < nat r" by auto
  then have "out ! i = ys ! (i - (nat l + 1))"
    using nth_three_parts(4) [OF parts len] o by simp
  moreover from mid [rule_format, of i] ii unmapped
  have "creditMap leftMappings rightMappings dis (maxLeftContextOf dis)
      (maxRightContextOf dis) i = Inr (ys ! (i - (nat l + 1)))" by simp
  ultimately have cm: "creditMap leftMappings rightMappings dis (maxLeftContextOf dis)
      (maxRightContextOf dis) i = Inr (out ! i)" by simp
  then obtain leftCredit rightCredit where
    rsc: "rightScan rightMappings dis (maxRightContextOf dis) i i noCredit = Inr rightCredit"
    and lsc: "leftScan leftMappings dis (maxLeftContextOf dis) i (Suc i) noCredit = Inr leftCredit"
    and dec: "out ! i = creditDecision leftCredit rightCredit"
    by (auto simp: creditMap_def split: sum.splits)
  show ?thesis
    using rsc lsc dec creditDecision_mapped [of leftCredit rightCredit]
      creditDecision_location [of leftCredit rightCredit]
    by auto
qed

theorem CreditFilter2_apply_credit_witness:
  "CreditFilter2_apply exampleDeps creditLeft creditRight ''AAAAAA''
      = Inr (creditDisambiguated[3 := Mapping_at \<lparr>text_id = 0, offset = 12\<rparr>])
   \<and> \<not> is_mapped (creditDisambiguated ! 3)
   \<and> (\<exists>leftCredit rightCredit.
         rightScan creditRight creditDisambiguated (maxRightContextOf creditDisambiguated) 3 3
           noCredit = Inr rightCredit
       \<and> leftScan creditLeft creditDisambiguated (maxLeftContextOf creditDisambiguated) 3
           (Suc 3) noCredit = Inr leftCredit
       \<and> creditDisambiguated[3 := Mapping_at \<lparr>text_id = 0, offset = 12\<rparr>] ! 3
           = creditDecision leftCredit rightCredit)"
proof -
  have f: "disambiguateFilter exampleDeps creditLeft creditRight = Inr creditDisambiguated"
    by code_simp
  have l: "findLeftSentinel exampleDeps creditLeft creditDisambiguated ''AAAAAA'' 0 = Inr 0"
    by code_simp
  have r: "findRightSentinel exampleDeps creditRight creditDisambiguated ''AAAAAA''
      (length creditDisambiguated) = Inr 5"
    by code_simp
  have o: "CreditFilter2_apply exampleDeps creditLeft creditRight ''AAAAAA''
      = Inr (creditDisambiguated[3 := Mapping_at \<lparr>text_id = 0, offset = 12\<rparr>])"
    by code_simp
  have u: "\<not> is_mapped (creditDisambiguated ! 3)"
    by (simp add: creditDisambiguated_def Mapping_unmapped_def)
  have i: "(0::int) \<le> 0" "0 < int 3" "int 3 < 5" by simp_all
  from CreditFilter2_apply_credit [OF f l r o i u] o u show ?thesis by blast
qed

text \<open>
  C7 as stated fails on the example: at base 3 the right contexts of bases 1 and 2 imply
  two different offsets, so the right side is inconsistent, yet the left context of base 4
  alone maps the base to text 0, offset 12.
\<close>

theorem CreditFilter2_inconsistent_side_counterexample:
  "findLeftSentinel exampleDeps creditLeft creditDisambiguated ''AAAAAA'' 0 = Inr 0
   \<and> findRightSentinel exampleDeps creditRight creditDisambiguated ''AAAAAA'' 6 = Inr 5
   \<and> \<not> is_mapped (creditDisambiguated ! 3)
   \<and> rightScan creditRight creditDisambiguated (maxRightContextOf creditDisambiguated) 3 3
        noCredit = Inr (True, \<lparr>text_id = 0, offset = 11\<rparr>, False)
   \<and> leftScan creditLeft creditDisambiguated (maxLeftContextOf creditDisambiguated) 3 4
        noCredit = Inr (True, \<lparr>text_id = 0, offset = 12\<rparr>, True)
   \<and> CreditFilter2_apply exampleDeps creditLeft creditRight ''AAAAAA''
        = Inr (creditDisambiguated[3 := Mapping_at \<lparr>text_id = 0, offset = 12\<rparr>])
   \<and> is_mapped ((creditDisambiguated[3 := Mapping_at \<lparr>text_id = 0, offset = 12\<rparr>]) ! 3)"
  by code_simp

section \<open>The index builder and its temporary directory\<close>

lemma createPath_keeps: "p \<in> set fs \<Longrightarrow> p \<in> set (createPath q fs)"
  by (simp add: createPath_def)

lemma createPath_creates: "p \<in> set (createPath p fs)"
  by (simp add: createPath_def)

lemma fold_createPath_keeps: "p \<in> set fs \<Longrightarrow> p \<in> set (fold createPath qs fs)"
  by (induction qs arbitrary: fs) (simp_all add: createPath_keeps)

lemma copy_file_keeps: "copy_file src dst fs = (res, fs') \<Longrightarrow> p \<in> set fs \<Longrightarrow> p \<in> set fs'"
  by (auto simp: copy_file_def split: if_splits)

lemma merge_keeps: "merge basename other fs = (res, fs') \<Longrightarrow> p \<in> set fs \<Longrightarrow> p \<in> set fs'"
  by (auto simp: merge_def split: if_splits prod.splits sum.splits dest: copy_file_keeps)

lemma remove_all_removes: "dir \<notin> set (remove_all dir fs)"
  by (simp add: remove_all_def)

text \<open>
  On the path that returns, the temporary directory is gone; on every path that throws, it
  is still there.
\<close>

lemma add_success_removes_tempdir:
  "add env basename filename fs = Some (Inr u, fs') \<Longrightarrow> tempDirName env \<notin> set fs'"
  by (auto simp: add_def Let_def remove_all_removes
      split: if_splits fork_result.splits prod.splits sum.splits)

lemma add_failure_keeps_tempdir:
  assumes "add env basename filename fs = Some (Inl e, fs')"
  shows "tempDirName env \<in> set fs'"
proof -
  let ?t = "tempDirName env"
  let ?fs3 = "createPath (basename @ ''.chrom.sizes'')
      (createPath (?t @ ''/haplotypes'') (createPath ?t fs))"
  let ?fs4 = "createPath (?t @ ''/haplotypes.rlcsa.parameters'') ?fs3"
  let ?fs5 = "fold createPath (builderFiles env) ?fs4"
  have t3: "?t \<in> set ?fs3"
    by (intro createPath_keeps createPath_creates)
  then have t4: "?t \<in> set ?fs4" by (rule createPath_keeps)
  then have t5: "?t \<in> set ?fs5" by (rule fold_createPath_keeps)
  from assms have "fs' = ?fs3 \<or> fs' = ?fs4 \<or> fs' = ?fs5
      \<or> (\<exists>res. merge basename (?t @ ''/haplotypes'') ?fs5 = (res, fs'))"
    by (auto simp: add_def Let_def split: if_splits fork_result.splits prod.splits sum.splits)
  with t3 t4 t5 show ?thesis by (auto dest: merge_keeps)
qed

text \<open>
  C9. The claim fails on the code: when the child process of \<^verbatim>\<open>build_rlcsa\<close> exits with a
  nonzero status, \<^verbatim>\<open>add\<close> throws before it reaches \<^verbatim>\<open>remove_all\<close>, and the temporary
  directory with the files written into it is left behind.
\<close>

theorem add_leaks_tempdir_when_build_fails:
  "add failingEnv ''index'' ''genome.fa'' []
     = Some (Inl IndexBuildFailed,
         [''/tmp/fmd/haplotypes.rlcsa.parameters'', ''index.chrom.sizes'',
          ''/tmp/fmd/haplotypes'', ''/tmp/fmd''])"
  by code_simp

end
